theory Spec2Isabelle
  imports Complex_Main
begin

section \<open>Values shared by both scripts\<close>

text \<open>
  The repository holds two scripts, \<^verbatim>\<open>exam.py\<close> and \<^verbatim>\<open>merkle9chain.py\<close>. Each declares its
  own \<^verbatim>\<open>Block\<close>, \<^verbatim>\<open>MerkleTree\<close> and \<^verbatim>\<open>Blockchain\<close>; only \<^verbatim>\<open>exam.py\<close> has a \<^verbatim>\<open>Network\<close>.
  Where the two scripts differ, the definitions carry the suffix \<open>_exam\<close> or \<open>_m9\<close>.

  \<^verbatim>\<open>hashlib.sha256(s.encode()).hexdigest()\<close> is library code: it is the parameter \<open>H\<close> of
  every definition that hashes, and the properties are proved for an arbitrary \<open>H\<close>.
  A Python \<^verbatim>\<open>str\<close> is kept as the bytes of its UTF-8 encoding, which is what the digest reads
  and which concatenation preserves.
\<close>

type_synonym hasher = "string \<Rightarrow> string"

datatype py_error = AssertionError | IndexError

text \<open>The text of a Python \<^verbatim>\<open>int\<close> inside an f-string: decimal digits, a minus sign first.\<close>

definition digit_char :: "nat \<Rightarrow> char" where
  "digit_char d = char_of (48 + d)"

fun str_nat :: "nat \<Rightarrow> string" where
  "str_nat n = (if n < 10 then [digit_char n] else str_nat (n div 10) @ [digit_char (n mod 10)])"

declare str_nat.simps [simp del]

definition py_str :: "int \<Rightarrow> string" where
  "py_str i = (if i < 0 then CHR ''-'' # str_nat (nat (- i)) else str_nat (nat i))"

text \<open>\<^verbatim>\<open>s.startswith(p)\<close>, and the prefix \<^verbatim>\<open>"0" * difficulty\<close> (empty when \<open>difficulty \<le> 0\<close>).\<close>

definition startswith :: "string \<Rightarrow> string \<Rightarrow> bool" where
  "startswith s p = (take (length p) s = p)"

definition zeros :: "int \<Rightarrow> string" where
  "zeros difficulty = replicate (nat difficulty) CHR ''0''"

text \<open>
  \<^verbatim>\<open>xs[i]\<close> for a Python list of length \<open>n\<close>: the position read, counting a negative index from
  the end, or \<open>None\<close> where Python raises \<^verbatim>\<open>IndexError\<close>.
\<close>

definition py_index :: "nat \<Rightarrow> int \<Rightarrow> nat option" where
  "py_index n i =
     (if 0 \<le> i \<and> i < int n then Some (nat i)
      else if - int n \<le> i \<and> i < 0 then Some (nat (int n + i))
      else None)"

section \<open>Block\<close>

text \<open>
  A \<^verbatim>\<open>Block\<close> object while \<^verbatim>\<open>__init__\<close> runs has the attributes \<open>index\<close>, \<open>timestamp\<close>, \<open>data\<close>,
  \<open>previous_hash\<close> and \<open>nonce\<close> (record \<open>header\<close>); \<open>hash\<close> is assigned last, from the value
  \<^verbatim>\<open>mine_block\<close> returns (record \<open>block\<close>, the \<^verbatim>\<open>Block\<close> of \<^verbatim>\<open>merkle9chain.py\<close>). The \<^verbatim>\<open>Block\<close> of
  \<^verbatim>\<open>exam.py\<close> also keeps the difficulty it was mined at (record \<open>exam_block\<close>; the field is
  \<open>blk_difficulty\<close>, since \<open>difficulty\<close> names the field of \<^verbatim>\<open>Blockchain\<close>).
  \<open>timestamp\<close> is the float \<^verbatim>\<open>time.time()\<close> returned, kept as the text the f-string of
  \<^verbatim>\<open>calculate_hash\<close> renders it to, the only way the code reads it. The clock reading is an
  argument of every constructor.
\<close>

record header =
  index :: int
  timestamp :: string
  data :: string
  previous_hash :: string
  nonce :: int

record block = header +
  hash :: string

record exam_block = block +
  blk_difficulty :: int

definition calculate_hash :: "hasher \<Rightarrow> 'a header_scheme \<Rightarrow> string" where
  "calculate_hash H b =
     H (py_str (index b) @ timestamp b @ data b @ previous_hash b @ py_str (nonce b))"

text \<open>
  \<^verbatim>\<open>mine_block\<close>: the loop \<^verbatim>\<open>while True\<close> has no bound, so not returning is the value \<open>None\<close>.
  It returns the accepted digest together with the object, whose \<open>nonce\<close> it has advanced.
  In \<^verbatim>\<open>merkle9chain.py\<close> the difficulty is the method's argument, in \<^verbatim>\<open>exam.py\<close> it is read
  from \<^verbatim>\<open>self.difficulty\<close>, which \<^verbatim>\<open>__init__\<close> has set from its argument.
\<close>

partial_function (option) mine_block :: "hasher \<Rightarrow> int \<Rightarrow> header \<Rightarrow> (string \<times> header) option" where
  "mine_block H difficulty b =
     (if startswith (calculate_hash H b) (zeros difficulty)
      then Some (calculate_hash H b, b)
      else mine_block H difficulty (b\<lparr>nonce := nonce b + 1\<rparr>))"

declare mine_block.simps [code]

text \<open>
  The attempts of the loop, counted from the block it starts on: attempt \<open>k\<close> hashes the block
  with \<open>k\<close> added to its \<open>nonce\<close>, and \<open>accepts\<close> holds when that digest has the prefix.
\<close>

definition accepts :: "hasher \<Rightarrow> int \<Rightarrow> header \<Rightarrow> nat \<Rightarrow> bool" where
  "accepts H d b k = startswith (calculate_hash H (b\<lparr>nonce := nonce b + int k\<rparr>)) (zeros d)"

definition Block_m9 :: "hasher \<Rightarrow> string \<Rightarrow> int \<Rightarrow> string \<Rightarrow> string \<Rightarrow> int \<Rightarrow> block option" where
  "Block_m9 H now idx dat prev difficulty =
     (case mine_block H difficulty
             \<lparr>index = idx, timestamp = now, data = dat, previous_hash = prev, nonce = 0\<rparr> of
        None \<Rightarrow> None
      | Some (hash_attempt, b) \<Rightarrow>
          Some \<lparr>index = index b, timestamp = timestamp b, data = data b,
                previous_hash = previous_hash b, nonce = nonce b, hash = hash_attempt\<rparr>)"

definition Block_exam :: "hasher \<Rightarrow> string \<Rightarrow> int \<Rightarrow> string \<Rightarrow> string \<Rightarrow> int \<Rightarrow> exam_block option" where
  "Block_exam H now idx dat prev difficulty =
     (case mine_block H difficulty
             \<lparr>index = idx, timestamp = now, data = dat, previous_hash = prev, nonce = 0\<rparr> of
        None \<Rightarrow> None
      | Some (hash_val, b) \<Rightarrow>
          Some \<lparr>index = index b, timestamp = timestamp b, data = data b,
                previous_hash = previous_hash b, nonce = nonce b, hash = hash_val,
                blk_difficulty = difficulty\<rparr>)"

section \<open>MerkleTree\<close>

text \<open>
  One pass of the \<^verbatim>\<open>while\<close> loop of \<^verbatim>\<open>calculate_merkle_root\<close>, the same in both scripts.
  \<open>pad_level\<close> is \<^verbatim>\<open>if len(level) % 2 != 0: level.append(level[-1])\<close>. \<open>combine_pairs\<close> is the
  \<^verbatim>\<open>for i in range(0, len(level), 2)\<close> loop: it reads \<^verbatim>\<open>level[i]\<close> and \<^verbatim>\<open>level[i+1]\<close>, and
  \<^verbatim>\<open>level[i+1]\<close> past the end is Python's \<^verbatim>\<open>IndexError\<close>.
\<close>

definition pad_level :: "string list \<Rightarrow> string list" where
  "pad_level level = (if length level mod 2 \<noteq> 0 then level @ [last level] else level)"

fun combine_pairs :: "hasher \<Rightarrow> string list \<Rightarrow> py_error + string list" where
  "combine_pairs H [] = Inr []"
| "combine_pairs H [a] = Inl IndexError"
| "combine_pairs H (a # b # rest) =
     (case combine_pairs H rest of
        Inl e \<Rightarrow> Inl e
      | Inr next_level \<Rightarrow> Inr (H (a @ b) # next_level))"

text \<open>The last line of both versions, \<^verbatim>\<open>return level[0]\<close>.\<close>

definition return_first :: "string list \<Rightarrow> py_error + string option" where
  "return_first level = (case level of [] \<Rightarrow> Inl IndexError | first # _ \<Rightarrow> Inr (Some first))"

text \<open>
  \<^verbatim>\<open>exam.py\<close>: the loop works on \<^verbatim>\<open>current_level = hashes[:]\<close>, a copy, so the caller's list is
  never written. \<open>reduce_levels\<close> is the \<^verbatim>\<open>while len(current_level) > 1\<close> loop.
\<close>

function reduce_levels :: "hasher \<Rightarrow> string list \<Rightarrow> py_error + string list" where
  "reduce_levels H current_level =
     (if length current_level > 1
      then (case combine_pairs H (pad_level current_level) of
              Inl e \<Rightarrow> Inl e
            | Inr next_level \<Rightarrow> reduce_levels H next_level)
      else Inr current_level)"
  by pat_completeness auto
termination
proof (relation "measure (\<lambda>(H, level). length level)")
  show "wf (measure (\<lambda>(H :: hasher, level :: string list). length level))"
    by simp
next
  fix H :: hasher and current_level next_level :: "string list"
  assume long: "1 < length current_level"
    and step: "combine_pairs H (pad_level current_level) = Inr next_level"
  have halves: "combine_pairs H xs = Inr ys \<Longrightarrow> 2 * length ys = length xs" for xs ys
    by (induction H xs arbitrary: ys rule: combine_pairs.induct)
       (auto split: sum.splits)
  have "2 * length next_level = length (pad_level current_level)"
    using step by (rule halves)
  moreover have "length (pad_level current_level) \<le> length current_level + 1"
    by (simp add: pad_level_def)
  ultimately have "length next_level < length current_level"
    using long by linarith
  then show "((H, next_level), (H, current_level)) \<in> measure (\<lambda>(H, level). length level)"
    by simp
qed

declare reduce_levels.simps [simp del]

definition calculate_merkle_root_exam :: "hasher \<Rightarrow> string list \<Rightarrow> py_error + string option" where
  "calculate_merkle_root_exam H hashes =
     (if hashes = [] then Inr None
      else (case reduce_levels H hashes of
              Inl e \<Rightarrow> Inl e
            | Inr current_level \<Rightarrow> return_first current_level))"

text \<open>
  \<^verbatim>\<open>merkle9chain.py\<close>: there is no copy. The name \<^verbatim>\<open>hashes\<close> first denotes the caller's list
  object, \<^verbatim>\<open>hashes.append(hashes[-1])\<close> writes to whatever object \<^verbatim>\<open>hashes\<close> denotes, and
  \<^verbatim>\<open>hashes = new_level\<close> rebinds the name to a fresh object. The model keeps the list
  objects in a store (address to contents, \<open>fresh\<close> the next unused address) and the
  variable \<^verbatim>\<open>hashes\<close> as an address; it returns the result and the final store.
\<close>

type_synonym store = "nat \<Rightarrow> string list"

function m9_loop :: "hasher \<Rightarrow> store \<Rightarrow> nat \<Rightarrow> nat \<Rightarrow> (py_error + string option) \<times> store" where
  "m9_loop H st fresh hashes =
     (if length (st hashes) > 1
      then (let st1 = st(hashes := pad_level (st hashes)) in
            case combine_pairs H (st1 hashes) of
              Inl e \<Rightarrow> (Inl e, st1)
            | Inr new_level \<Rightarrow> m9_loop H (st1(fresh := new_level)) (Suc fresh) fresh)
      else (return_first (st hashes), st))"
  by pat_completeness auto
termination
proof (relation "measure (\<lambda>(H, st, fresh, hashes). length (st hashes))")
  show "wf (measure (\<lambda>(H :: hasher, st :: store, fresh :: nat, hashes :: nat). length (st hashes)))"
    by simp
next
  fix H :: hasher and st st1 :: store and fresh hashes :: nat and new_level :: "string list"
  assume long: "1 < length (st hashes)"
    and st1: "st1 = st(hashes := pad_level (st hashes))"
    and step: "combine_pairs H (st1 hashes) = Inr new_level"
  have halves: "combine_pairs H xs = Inr ys \<Longrightarrow> 2 * length ys = length xs" for xs ys
    by (induction H xs arbitrary: ys rule: combine_pairs.induct)
       (auto split: sum.splits)
  have "2 * length new_level = length (pad_level (st hashes))"
    using step st1 halves by simp
  moreover have "length (pad_level (st hashes)) \<le> length (st hashes) + 1"
    by (simp add: pad_level_def)
  ultimately have "length new_level < length (st hashes)"
    using long by linarith
  then show "((H, st1(fresh := new_level), Suc fresh, fresh), (H, st, fresh, hashes))
      \<in> measure (\<lambda>(H, st, fresh, hashes). length (st hashes))"
    by simp
qed

declare m9_loop.simps [simp del]

text \<open>
  The call itself: the caller's list is the object at address 0. The result is paired with
  the contents of the caller's list when the call returns.
\<close>

definition calculate_merkle_root_m9 ::
  "hasher \<Rightarrow> string list \<Rightarrow> (py_error + string option) \<times> string list" where
  "calculate_merkle_root_m9 H hashes =
     (if hashes = [] then (Inr None, hashes)
      else (let (r, st) = m9_loop H ((\<lambda>_. [])(0 := hashes)) 1 0 in (r, st 0)))"

section \<open>Blockchain\<close>

text \<open>
  The class has the same attributes in both scripts; the type of the blocks is a parameter,
  \<open>block\<close> for \<^verbatim>\<open>merkle9chain.py\<close> and \<open>exam_block\<close> for \<^verbatim>\<open>exam.py\<close>. \<open>merkle_root\<close> is \<open>None\<close>
  until \<^verbatim>\<open>compute_merkle_root\<close> stores a value. A method that mutates \<^verbatim>\<open>self\<close> returns the
  object as it has become.
\<close>

record 'b blockchain =
  difficulty :: int
  chain :: "'b list"
  merkle_root :: "string option"

definition create_genesis_block_m9 :: "hasher \<Rightarrow> string \<Rightarrow> int \<Rightarrow> block option" where
  "create_genesis_block_m9 H now d = Block_m9 H now 0 ''Genesis Block'' ''0'' d"

definition create_genesis_block_exam :: "hasher \<Rightarrow> string \<Rightarrow> int \<Rightarrow> exam_block option" where
  "create_genesis_block_exam H now d = Block_exam H now 0 ''Genesis Block'' ''0'' d"

definition Blockchain_m9 :: "hasher \<Rightarrow> string \<Rightarrow> int \<Rightarrow> block blockchain option" where
  "Blockchain_m9 H now d =
     (case create_genesis_block_m9 H now d of
        None \<Rightarrow> None
      | Some genesis \<Rightarrow> Some \<lparr>difficulty = d, chain = [genesis], merkle_root = None\<rparr>)"

definition Blockchain_exam :: "hasher \<Rightarrow> string \<Rightarrow> int \<Rightarrow> exam_block blockchain option" where
  "Blockchain_exam H now d =
     (case create_genesis_block_exam H now d of
        None \<Rightarrow> None
      | Some genesis \<Rightarrow> Some \<lparr>difficulty = d, chain = [genesis], merkle_root = None\<rparr>)"

text \<open>
  \<^verbatim>\<open>add_block\<close> reads \<^verbatim>\<open>self.chain[-1]\<close> (\<^verbatim>\<open>IndexError\<close> on an empty chain), then mines: the
  outer \<open>None\<close> is a mining loop that does not return.
\<close>

definition add_block_m9 ::
  "hasher \<Rightarrow> string \<Rightarrow> string \<Rightarrow> block blockchain \<Rightarrow> (py_error + block blockchain) option" where
  "add_block_m9 H now dat bc =
     (if chain bc = [] then Some (Inl IndexError)
      else (case Block_m9 H now (int (length (chain bc))) dat (hash (last (chain bc))) (difficulty bc) of
              None \<Rightarrow> None
            | Some b \<Rightarrow> Some (Inr (bc\<lparr>chain := chain bc @ [b]\<rparr>))))"

definition add_block_exam ::
  "hasher \<Rightarrow> string \<Rightarrow> string \<Rightarrow> exam_block blockchain \<Rightarrow> (py_error + exam_block blockchain) option" where
  "add_block_exam H now dat bc =
     (if chain bc = [] then Some (Inl IndexError)
      else (case Block_exam H now (int (length (chain bc))) dat (hash (last (chain bc))) (difficulty bc) of
              None \<Rightarrow> None
            | Some b \<Rightarrow> Some (Inr (bc\<lparr>chain := chain bc @ [b]\<rparr>))))"

text \<open>
  \<^verbatim>\<open>compute_merkle_root\<close> passes a list built on the spot, so what \<^verbatim>\<open>merkle9chain.py\<close>'s
  aggregator writes to its argument is dropped with that list. It returns the root and
  the object with the root cached.
\<close>

definition compute_merkle_root_m9 ::
  "hasher \<Rightarrow> ('a block_scheme) blockchain \<Rightarrow> py_error + (string option \<times> ('a block_scheme) blockchain)" where
  "compute_merkle_root_m9 H bc =
     (case fst (calculate_merkle_root_m9 H (map hash (chain bc))) of
        Inl e \<Rightarrow> Inl e
      | Inr merkle \<Rightarrow> Inr (merkle, bc\<lparr>merkle_root := merkle\<rparr>))"

definition compute_merkle_root_exam ::
  "hasher \<Rightarrow> ('a block_scheme) blockchain \<Rightarrow> py_error + (string option \<times> ('a block_scheme) blockchain)" where
  "compute_merkle_root_exam H bc =
     (case calculate_merkle_root_exam H (map hash (chain bc)) of
        Inl e \<Rightarrow> Inl e
      | Inr merkle \<Rightarrow> Inr (merkle, bc\<lparr>merkle_root := merkle\<rparr>))"

subsection \<open>Validation\<close>

text \<open>
  The three per-block checks, in the order both scripts make them. \<^verbatim>\<open>merkle9chain.py\<close>
  names them "Hash falsifie", "previous_hash incorrect" and "Difficulte non respectee";
  \<^verbatim>\<open>exam.py\<close> prints "hash invalide", "lien au bloc precedent invalide" and
  "difficulte PoW non respectee" (accents left out here).
\<close>

datatype problem = HashMismatch | PreviousHashMismatch | DifficultyFailure

definition check_fails :: "hasher \<Rightarrow> string \<Rightarrow> 'a block_scheme list \<Rightarrow> nat \<Rightarrow> problem \<Rightarrow> bool" where
  "check_fails H prefix blocks i k =
     (case k of
        HashMismatch \<Rightarrow> hash (blocks ! i) \<noteq> calculate_hash H (blocks ! i)
      | PreviousHashMismatch \<Rightarrow> previous_hash (blocks ! i) \<noteq> hash (blocks ! (i - 1))
      | DifficultyFailure \<Rightarrow> \<not> startswith (hash (blocks ! i)) prefix)"

text \<open>
  The findings a validation that stops at nothing would list for block \<open>i\<close>: one pair for each
  failing check, in the order of the checks.
\<close>

definition findings_at :: "hasher \<Rightarrow> string \<Rightarrow> 'a block_scheme list \<Rightarrow> nat \<Rightarrow> (nat \<times> problem) list" where
  "findings_at H prefix blocks i =
     map (Pair i)
       (filter (check_fails H prefix blocks i) [HashMismatch, PreviousHashMismatch, DifficultyFailure])"

text \<open>
  \<^verbatim>\<open>merkle9chain.py\<close>: the loop over \<^verbatim>\<open>range(1, len(self.chain))\<close> appends to the local list
  \<^verbatim>\<open>invalid_blocks\<close> and never leaves early. The Merkle root is recomputed and compared, but
  the comparison only prints a line: the value returned is decided by \<^verbatim>\<open>invalid_blocks\<close>
  alone.
\<close>

fun collect_invalid_blocks ::
  "hasher \<Rightarrow> string \<Rightarrow> 'a block_scheme list \<Rightarrow> (nat \<times> problem) list \<Rightarrow> nat list \<Rightarrow> (nat \<times> problem) list" where
  "collect_invalid_blocks H prefix blocks invalid_blocks [] = invalid_blocks"
| "collect_invalid_blocks H prefix blocks invalid_blocks (i # rest) =
     collect_invalid_blocks H prefix blocks
       (invalid_blocks
          @ (if hash (blocks ! i) \<noteq> calculate_hash H (blocks ! i) then [(i, HashMismatch)] else [])
          @ (if previous_hash (blocks ! i) \<noteq> hash (blocks ! (i - 1)) then [(i, PreviousHashMismatch)] else [])
          @ (if \<not> startswith (hash (blocks ! i)) prefix then [(i, DifficultyFailure)] else []))
       rest"

definition invalid_blocks_m9 :: "hasher \<Rightarrow> ('a block_scheme) blockchain \<Rightarrow> (nat \<times> problem) list" where
  "invalid_blocks_m9 H bc =
     collect_invalid_blocks H (zeros (difficulty bc)) (chain bc) [] [1 ..< length (chain bc)]"

definition is_chain_valid_m9 :: "hasher \<Rightarrow> ('a block_scheme) blockchain \<Rightarrow> py_error + bool" where
  "is_chain_valid_m9 H bc =
     (case fst (calculate_merkle_root_m9 H (map hash (chain bc))) of
        Inl e \<Rightarrow> Inl e
      | Inr recalculated_merkle \<Rightarrow> Inr (invalid_blocks_m9 H bc = []))"

text \<open>
  \<^verbatim>\<open>exam.py\<close>: each failing check prints one line naming \<^verbatim>\<open>current.index\<close> and returns
  \<^verbatim>\<open>False\<close> at once. \<open>first_problem_exam\<close> is the loop: the line printed by the branch that
  returns, or \<open>None\<close> when the loop runs to its end. Only then is the Merkle root compared.
\<close>

fun first_problem_exam ::
  "hasher \<Rightarrow> string \<Rightarrow> 'a block_scheme list \<Rightarrow> nat list \<Rightarrow> (int \<times> problem) option" where
  "first_problem_exam H prefix blocks [] = None"
| "first_problem_exam H prefix blocks (i # rest) =
     (if hash (blocks ! i) \<noteq> calculate_hash H (blocks ! i)
        then Some (index (blocks ! i), HashMismatch)
      else if previous_hash (blocks ! i) \<noteq> hash (blocks ! (i - 1))
        then Some (index (blocks ! i), PreviousHashMismatch)
      else if \<not> startswith (hash (blocks ! i)) prefix
        then Some (index (blocks ! i), DifficultyFailure)
      else first_problem_exam H prefix blocks rest)"

definition reported_exam :: "hasher \<Rightarrow> ('a block_scheme) blockchain \<Rightarrow> (int \<times> problem) option" where
  "reported_exam H bc =
     first_problem_exam H (zeros (difficulty bc)) (chain bc) [1 ..< length (chain bc)]"

definition is_chain_valid_exam :: "hasher \<Rightarrow> ('a block_scheme) blockchain \<Rightarrow> py_error + bool" where
  "is_chain_valid_exam H bc =
     (case reported_exam H bc of
        Some finding \<Rightarrow> Inr False
      | None \<Rightarrow>
          (case calculate_merkle_root_exam H (map hash (chain bc)) of
             Inl e \<Rightarrow> Inl e
           | Inr recalculated \<Rightarrow> Inr (recalculated = merkle_root bc)))"

subsection \<open>falsify_block (merkle9chain.py)\<close>

text \<open>
  What both scripts do to a block they tamper with: \<^verbatim>\<open>data\<close> becomes the marker, then \<^verbatim>\<open>hash\<close>
  becomes \<^verbatim>\<open>calculate_hash()\<close> of the block as it now is. Nothing is mined.
\<close>

definition falsify :: "hasher \<Rightarrow> 'a block_scheme \<Rightarrow> 'a block_scheme" where
  "falsify H b =
     (let b1 = b\<lparr>data := ''FALSIFIED DATA''\<rparr> in b1\<lparr>hash := calculate_hash H b1\<rparr>)"

text \<open>
  \<^verbatim>\<open>falsify_block\<close> indexes \<^verbatim>\<open>blockchain.chain[idx]\<close> with no range check and does not touch
  \<^verbatim>\<open>merkle_root\<close>. It returns how the call ended and the chain as it then is.
\<close>

fun falsify_block ::
  "hasher \<Rightarrow> ('a block_scheme) blockchain \<Rightarrow> int list \<Rightarrow> (py_error + unit) \<times> ('a block_scheme) blockchain" where
  "falsify_block H bc [] = (Inr (), bc)"
| "falsify_block H bc (idx # rest) =
     (case py_index (length (chain bc)) idx of
        None \<Rightarrow> (Inl IndexError, bc)
      | Some k \<Rightarrow> falsify_block H (bc\<lparr>chain := (chain bc)[k := falsify H (chain bc ! k)]\<rparr>) rest)"

section \<open>Network (exam.py)\<close>

record network =
  nodes :: "exam_block blockchain list"
  net_difficulty :: int

text \<open>
  The payload of block \<open>j\<close>, the word "Donnee" with an acute accent on its first e, a space,
  \<^verbatim>\<open>#\<close> and \<open>j\<close> in decimal, as UTF-8 bytes (the accented letter is the bytes C3 A9).
\<close>

definition donnee :: "nat \<Rightarrow> string" where
  "donnee j = ''Donn'' @ [char_of (195 :: nat), char_of (169 :: nat)] @ ''e #'' @ py_str (int j)"

text \<open>
  The inner loop \<^verbatim>\<open>for j in range(1, 9): bc.add_block(...)\<close>. Every block reads the clock:
  \<open>clock j\<close> is the reading for block \<open>j\<close> of the replica being built.
\<close>

fun add_blocks ::
  "hasher \<Rightarrow> (nat \<Rightarrow> string) \<Rightarrow> exam_block blockchain \<Rightarrow> nat list \<Rightarrow> (py_error + exam_block blockchain) option" where
  "add_blocks H clock bc [] = Some (Inr bc)"
| "add_blocks H clock bc (j # rest) =
     (case add_block_exam H (clock j) (donnee j) bc of
        None \<Rightarrow> None
      | Some (Inl e) \<Rightarrow> Some (Inl e)
      | Some (Inr bc1) \<Rightarrow> add_blocks H clock bc1 rest)"

text \<open>One pass of the outer loop: the replica that is appended to \<^verbatim>\<open>self.nodes\<close>.\<close>

definition build_node ::
  "hasher \<Rightarrow> (nat \<Rightarrow> string) \<Rightarrow> int \<Rightarrow> (py_error + exam_block blockchain) option" where
  "build_node H clock d =
     (case Blockchain_exam H (clock 0) d of
        None \<Rightarrow> None
      | Some bc \<Rightarrow>
          (case add_blocks H clock bc [1 ..< 9] of
             None \<Rightarrow> None
           | Some (Inl e) \<Rightarrow> Some (Inl e)
           | Some (Inr bc1) \<Rightarrow>
               (case compute_merkle_root_exam H bc1 of
                  Inl e \<Rightarrow> Some (Inl e)
                | Inr (merkle, bc2) \<Rightarrow> Some (Inr bc2))))"

fun build_nodes ::
  "hasher \<Rightarrow> (nat \<Rightarrow> nat \<Rightarrow> string) \<Rightarrow> int \<Rightarrow> exam_block blockchain list \<Rightarrow> nat list
     \<Rightarrow> (py_error + exam_block blockchain list) option" where
  "build_nodes H clock d built [] = Some (Inr built)"
| "build_nodes H clock d built (i # rest) =
     (case build_node H (clock i) d of
        None \<Rightarrow> None
      | Some (Inl e) \<Rightarrow> Some (Inl e)
      | Some (Inr bc) \<Rightarrow> build_nodes H clock d (built @ [bc]) rest)"

text \<open>
  \<^verbatim>\<open>Network.__init__\<close>. The \<^verbatim>\<open>assert\<close> comes first; a constructor that raises leaves no object,
  so the error stands alone. \<^verbatim>\<open>range(node_count)\<close> is empty for \<open>node_count \<le> 0\<close>.
  \<open>clock i j\<close> is the clock reading for block \<open>j\<close> of replica \<open>i\<close>.
\<close>

definition Network ::
  "hasher \<Rightarrow> (nat \<Rightarrow> nat \<Rightarrow> string) \<Rightarrow> int \<Rightarrow> int \<Rightarrow> (py_error + network) option" where
  "Network H clock node_count d =
     (if node_count mod 2 \<noteq> 1 then Some (Inl AssertionError)
      else (case build_nodes H clock d [] [0 ..< nat node_count] of
              None \<Rightarrow> None
            | Some (Inl e) \<Rightarrow> Some (Inl e)
            | Some (Inr built) \<Rightarrow> Some (Inr \<lparr>nodes = built, net_difficulty = d\<rparr>)))"

text \<open>
  \<^verbatim>\<open>majority_vote\<close>: \<open>count_valid\<close> is \<^verbatim>\<open>sum(1 for bc in self.nodes if bc.is_chain_valid())\<close>, and
  \<^verbatim>\<open>//\<close> on a length is \<open>div\<close>.
\<close>

fun count_valid :: "hasher \<Rightarrow> exam_block blockchain list \<Rightarrow> py_error + nat" where
  "count_valid H [] = Inr 0"
| "count_valid H (bc # rest) =
     (case is_chain_valid_exam H bc of
        Inl e \<Rightarrow> Inl e
      | Inr valid \<Rightarrow>
          (case count_valid H rest of
             Inl e \<Rightarrow> Inl e
           | Inr n \<Rightarrow> Inr ((if valid then 1 else 0) + n)))"

definition majority_vote :: "hasher \<Rightarrow> network \<Rightarrow> py_error + bool" where
  "majority_vote H net =
     (case count_valid H (nodes net) of
        Inl e \<Rightarrow> Inl e
      | Inr valides \<Rightarrow> Inr (valides > length (nodes net) div 2))"

text \<open>
  Mining at difficulty \<open>d\<close> returns from every starting block: the premise under which a
  constructor's unbounded loop is known to end.
\<close>

definition minable :: "hasher \<Rightarrow> int \<Rightarrow> bool" where
  "minable H d = (\<forall>b. \<exists>k. accepts H d b k)"

text \<open>The number of replicas whose \<^verbatim>\<open>is_chain_valid()\<close> returns \<^verbatim>\<open>True\<close>.\<close>

definition valid_replicas :: "hasher \<Rightarrow> network \<Rightarrow> nat" where
  "valid_replicas H net = length (filter (\<lambda>bc. is_chain_valid_exam H bc = Inr True) (nodes net))"

text \<open>
  \<^verbatim>\<open>corrupt_nodes\<close>. \<open>corrupt_blocks\<close> is the inner loop over \<^verbatim>\<open>blocks_to_corrupt\<close> with its guard
  \<^verbatim>\<open>0 <= bidx < len(bc.chain)\<close>. The outer loop reads \<^verbatim>\<open>self.nodes[idx]\<close> with no guard. The
  network is mutated in place, so the call returns how it ended together with the network
  as it is at that moment.
\<close>

fun corrupt_blocks :: "hasher \<Rightarrow> exam_block list \<Rightarrow> int list \<Rightarrow> exam_block list" where
  "corrupt_blocks H blocks [] = blocks"
| "corrupt_blocks H blocks (bidx # rest) =
     corrupt_blocks H
       (if 0 \<le> bidx \<and> bidx < int (length blocks)
        then blocks[nat bidx := falsify H (blocks ! nat bidx)]
        else blocks)
       rest"

fun corrupt_nodes :: "hasher \<Rightarrow> network \<Rightarrow> int list \<Rightarrow> int list \<Rightarrow> (py_error + unit) \<times> network" where
  "corrupt_nodes H net [] blocks_to_corrupt = (Inr (), net)"
| "corrupt_nodes H net (idx # rest) blocks_to_corrupt =
     (case py_index (length (nodes net)) idx of
        None \<Rightarrow> (Inl IndexError, net)
      | Some k \<Rightarrow>
          (let bc = nodes net ! k;
               bc1 = bc\<lparr>chain := corrupt_blocks H (chain bc) blocks_to_corrupt\<rparr>
           in case compute_merkle_root_exam H bc1 of
                Inl e \<Rightarrow> (Inl e, net\<lparr>nodes := (nodes net)[k := bc1]\<rparr>)
              | Inr (merkle, bc2) \<Rightarrow>
                  corrupt_nodes H (net\<lparr>nodes := (nodes net)[k := bc2]\<rparr>) rest blocks_to_corrupt))"

text \<open>
  One pass of the outer loop of \<^verbatim>\<open>corrupt_nodes\<close>, seen from the replica it targets: its blocks
  after the inner loop, then \<^verbatim>\<open>compute_merkle_root()\<close>.
\<close>

definition corrupted :: "hasher \<Rightarrow> int list \<Rightarrow> exam_block blockchain \<Rightarrow> exam_block blockchain" where
  "corrupted H blocks_to_corrupt bc =
     (let bc1 = bc\<lparr>chain := corrupt_blocks H (chain bc) blocks_to_corrupt\<rparr>
      in case compute_merkle_root_exam H bc1 of Inl e \<Rightarrow> bc1 | Inr (merkle, bc2) \<Rightarrow> bc2)"

section \<open>Stand-ins for running the model\<close>

text \<open>
  A small digest on which the definitions can be evaluated. \<open>toy_hasher\<close> adds up
  the character codes of its input; the text it returns is that sum in decimal, after three
  zeros when the sum is 3 modulo 7 and after the letter f otherwise.
\<close>

definition toy_hasher :: hasher where
  "toy_hasher s =
     (let k = sum_list (map of_char s) :: nat
      in (if k mod 7 = 3 then ''000'' else ''f'') @ str_nat k)"

text \<open>
  A chain as \<^verbatim>\<open>exam.py\<close> builds it with \<open>toy_hasher\<close> at difficulty 3 (the genesis block, two
  appended blocks, the Merkle root computed), and a network of three such replicas.
\<close>

definition sample_chain :: "exam_block blockchain" where
  "sample_chain =
     \<lparr>difficulty = 3,
      chain =
        [\<lparr>index = 0, timestamp = ''17.5'', data = ''Genesis Block'', previous_hash = ''0'',
          nonce = 4, hash = ''0001592'', blk_difficulty = 3\<rparr>,
         \<lparr>index = 1, timestamp = ''18.5'', data = ''x'', previous_hash = ''0001592'',
          nonce = 6, hash = ''000780'', blk_difficulty = 3\<rparr>,
         \<lparr>index = 2, timestamp = ''19.5'', data = ''y'', previous_hash = ''000780'',
          nonce = 4, hash = ''000731'', blk_difficulty = 3\<rparr>],
      merkle_root = Some ''f573''\<rparr>"

definition sample_network :: network where
  "sample_network = \<lparr>nodes = [sample_chain, sample_chain, sample_chain], net_difficulty = 3\<rparr>"

text \<open>
  The chains the two constructors return with \<open>toy_hasher\<close> at difficulty 3 and the clock
  reading 17.5, and the chain of \<open>sample_chain\<close> as \<^verbatim>\<open>merkle9chain.py\<close> builds it (its blocks keep
  no difficulty).
\<close>

definition fresh_chain_m9 :: "block blockchain" where
  "fresh_chain_m9 =
     \<lparr>difficulty = 3,
      chain =
        [\<lparr>index = 0, timestamp = ''17.5'', data = ''Genesis Block'', previous_hash = ''0'',
          nonce = 4, hash = ''0001592''\<rparr>],
      merkle_root = None\<rparr>"

definition fresh_chain_exam :: "exam_block blockchain" where
  "fresh_chain_exam =
     \<lparr>difficulty = 3,
      chain =
        [\<lparr>index = 0, timestamp = ''17.5'', data = ''Genesis Block'', previous_hash = ''0'',
          nonce = 4, hash = ''0001592'', blk_difficulty = 3\<rparr>],
      merkle_root = None\<rparr>"

definition sample_chain_m9 :: "block blockchain" where
  "sample_chain_m9 =
     \<lparr>difficulty = 3,
      chain =
        [\<lparr>index = 0, timestamp = ''17.5'', data = ''Genesis Block'', previous_hash = ''0'',
          nonce = 4, hash = ''0001592''\<rparr>,
         \<lparr>index = 1, timestamp = ''18.5'', data = ''x'', previous_hash = ''0001592'',
          nonce = 6, hash = ''000780''\<rparr>,
         \<lparr>index = 2, timestamp = ''19.5'', data = ''y'', previous_hash = ''000780'',
          nonce = 4, hash = ''000731''\<rparr>],
      merkle_root = Some ''f573''\<rparr>"

text \<open>
  \<open>sample_chain\<close> after \<^verbatim>\<open>corrupt_nodes\<close> has targeted its block 1: the new digest lacks the prefix
  and block 2 no longer links to it.
\<close>

definition corrupted_sample :: "exam_block blockchain" where
  "corrupted_sample =
     \<lparr>difficulty = 3,
      chain =
        [\<lparr>index = 0, timestamp = ''17.5'', data = ''Genesis Block'', previous_hash = ''0'',
          nonce = 4, hash = ''0001592'', blk_difficulty = 3\<rparr>,
         \<lparr>index = 1, timestamp = ''18.5'', data = ''FALSIFIED DATA'', previous_hash = ''0001592'',
          nonce = 6, hash = ''f1621'', blk_difficulty = 3\<rparr>,
         \<lparr>index = 2, timestamp = ''19.5'', data = ''y'', previous_hash = ''000780'',
          nonce = 4, hash = ''000731'', blk_difficulty = 3\<rparr>],
      merkle_root = Some ''f574''\<rparr>"

text \<open>
  A chain of two blocks in which block 1 does not link to block 0 and its hash lacks the
  prefix, whatever the digest function is.
\<close>

definition two_faults_chain :: "exam_block blockchain" where
  "two_faults_chain =
     \<lparr>difficulty = 1,
      chain =
        [\<lparr>index = 0, timestamp = ''17.5'', data = ''Genesis Block'', previous_hash = ''0'',
          nonce = 0, hash = ''0a'', blk_difficulty = 1\<rparr>,
         \<lparr>index = 1, timestamp = ''17.5'', data = ''x'', previous_hash = ''ff'',
          nonce = 0, hash = ''1b'', blk_difficulty = 1\<rparr>],
      merkle_root = None\<rparr>"

section \<open>Mining\<close>

lemma accepts_0: "accepts H d b 0 = startswith (calculate_hash H b) (zeros d)"
  by (simp add: accepts_def)

lemma accepts_Suc: "accepts H d (b\<lparr>nonce := nonce b + 1\<rparr>) k = accepts H d b (Suc k)"
  by (simp add: accepts_def add.assoc)

lemma mine_block_finds:
  "accepts H d b k \<Longrightarrow> (\<And>j. j < k \<Longrightarrow> \<not> accepts H d b j) \<Longrightarrow>
   mine_block H d b =
     Some (calculate_hash H (b\<lparr>nonce := nonce b + int k\<rparr>), b\<lparr>nonce := nonce b + int k\<rparr>)"
proof (induction k arbitrary: b)
  case 0
  then show ?case
    by (subst mine_block.simps) (simp add: accepts_0)
next
  case (Suc k)
  let ?b1 = "b\<lparr>nonce := nonce b + 1\<rparr>"
  have first: "\<not> startswith (calculate_hash H b) (zeros d)"
    using Suc.prems(2) [of 0] by (simp add: accepts_0)
  have "accepts H d ?b1 k"
    using Suc.prems(1) by (simp add: accepts_Suc)
  moreover have "\<not> accepts H d ?b1 j" if "j < k" for j
    using Suc.prems(2) [of "Suc j"] that by (simp add: accepts_Suc)
  ultimately have "mine_block H d ?b1 =
      Some (calculate_hash H (?b1\<lparr>nonce := nonce ?b1 + int k\<rparr>), ?b1\<lparr>nonce := nonce ?b1 + int k\<rparr>)"
    by (rule Suc.IH)
  then show ?case
    using first by (subst mine_block.simps) (simp add: add.assoc)
qed

lemma mine_block_Some_accepts:
  assumes "mine_block H d b = Some r"
  shows "\<exists>k. accepts H d b k"
proof (rule mine_block.raw_induct [where P = "\<lambda>H d b r. \<exists>k. accepts H d b k", OF _ assms])
  fix mine :: "hasher \<Rightarrow> int \<Rightarrow> header \<Rightarrow> (string \<times> header) option"
    and H d b r
  assume IH: "\<And>H d b r. mine H d b = Some r \<Longrightarrow> \<exists>k. accepts H d b k"
    and step: "(if startswith (calculate_hash H b) (zeros d)
                then Some (calculate_hash H b, b)
                else mine H d (b\<lparr>nonce := nonce b + 1\<rparr>)) = Some r"
  show "\<exists>k. accepts H d b k"
  proof (cases "startswith (calculate_hash H b) (zeros d)")
    case True
    then show ?thesis
      using accepts_0 by blast
  next
    case False
    then have "mine H d (b\<lparr>nonce := nonce b + 1\<rparr>) = Some r"
      using step by simp
    then obtain k where "accepts H d (b\<lparr>nonce := nonce b + 1\<rparr>) k"
      using IH by blast
    then show ?thesis
      using accepts_Suc by blast
  qed
qed

lemma mine_block_result:
  "mine_block H d b =
     (if \<exists>k. accepts H d b k
      then Some (calculate_hash H (b\<lparr>nonce := nonce b + int (LEAST k. accepts H d b k)\<rparr>),
                 b\<lparr>nonce := nonce b + int (LEAST k. accepts H d b k)\<rparr>)
      else None)"
proof (cases "\<exists>k. accepts H d b k")
  case True
  then obtain k where "accepts H d b k" ..
  then have "accepts H d b (LEAST k. accepts H d b k)"
    by (rule LeastI)
  moreover have "\<not> accepts H d b j" if "j < (LEAST k. accepts H d b k)" for j
    using that by (rule not_less_Least)
  ultimately have "mine_block H d b =
      Some (calculate_hash H (b\<lparr>nonce := nonce b + int (LEAST k. accepts H d b k)\<rparr>),
            b\<lparr>nonce := nonce b + int (LEAST k. accepts H d b k)\<rparr>)"
    by (rule mine_block_finds)
  then show ?thesis
    using True by (simp only: if_True)
next
  case False
  have "mine_block H d b = None"
  proof (cases "mine_block H d b")
    case (Some r)
    then show ?thesis
      using False mine_block_Some_accepts by blast
  qed
  then show ?thesis
    using False by (simp only: if_False)
qed



lemma Block_m9_result:
  "Block_m9 H now idx dat prev d =
     (if \<exists>k. accepts H d \<lparr>index = idx, timestamp = now, data = dat, previous_hash = prev, nonce = 0\<rparr> k
      then Some \<lparr>index = idx, timestamp = now, data = dat, previous_hash = prev,
                 nonce = int (LEAST k. accepts H d \<lparr>index = idx, timestamp = now, data = dat, previous_hash = prev, nonce = 0\<rparr> k),
                 hash = H (py_str idx @ now @ dat @ prev @
                   py_str (int (LEAST k. accepts H d \<lparr>index = idx, timestamp = now, data = dat, previous_hash = prev, nonce = 0\<rparr> k)))\<rparr>
      else None)"
  by (simp add: Block_m9_def mine_block_result calculate_hash_def)

lemma Block_exam_result:
  "Block_exam H now idx dat prev d =
     (if \<exists>k. accepts H d \<lparr>index = idx, timestamp = now, data = dat, previous_hash = prev, nonce = 0\<rparr> k
      then Some \<lparr>index = idx, timestamp = now, data = dat, previous_hash = prev,
                 nonce = int (LEAST k. accepts H d \<lparr>index = idx, timestamp = now, data = dat, previous_hash = prev, nonce = 0\<rparr> k),
                 hash = H (py_str idx @ now @ dat @ prev @
                   py_str (int (LEAST k. accepts H d \<lparr>index = idx, timestamp = now, data = dat, previous_hash = prev, nonce = 0\<rparr> k))),
                 blk_difficulty = d\<rparr>
      else None)"
  by (simp add: Block_exam_def mine_block_result calculate_hash_def)

lemma accepts_fresh:
  "accepts H d \<lparr>index = idx, timestamp = now, data = dat, previous_hash = prev, nonce = 0\<rparr> k =
     startswith (H (py_str idx @ now @ dat @ prev @ py_str (int k))) (zeros d)"
  by (simp add: accepts_def calculate_hash_def)

lemma failed_attempts:
  assumes "0 \<le> n" and "n < int (LEAST k. accepts H d \<lparr>index = idx, timestamp = now, data = dat, previous_hash = prev, nonce = 0\<rparr> k)"
  shows "\<not> startswith (H (py_str idx @ now @ dat @ prev @ py_str n)) (zeros d)"
proof -
  let ?b0 = "\<lparr>index = idx, timestamp = now, data = dat, previous_hash = prev, nonce = 0\<rparr>"
  have "nat n < (LEAST k. accepts H d ?b0 k)"
    using assms by linarith
  then have "\<not> accepts H d ?b0 (nat n)"
    by (rule not_less_Least)
  then show ?thesis
    using assms(1) by (simp add: accepts_fresh)
qed

text \<open>
  C6. When the constructor returns a block \<open>b\<close> (in either script), \<open>hash b\<close> is the digest
  recomputed from \<open>index\<close>, \<open>timestamp\<close>, \<open>data\<close>, \<open>previous_hash\<close> and \<open>nonce\<close>, and it starts
  with \<open>difficulty\<close> zeros. Mining has changed nothing but \<open>nonce\<close>: the other attributes are the
  constructor's arguments, and \<open>nonce\<close> was counted up from 0 one failed attempt at a time, so
  every smaller nonce gives a digest without the prefix.
\<close>

theorem block_mined:
  "(Block_m9 H now idx dat prev d = Some b \<longrightarrow>
      hash b = calculate_hash H b \<and> startswith (hash b) (zeros d) \<and>
      index b = idx \<and> timestamp b = now \<and> data b = dat \<and> previous_hash b = prev \<and>
      0 \<le> nonce b \<and>
      (\<forall>n. 0 \<le> n \<and> n < nonce b \<longrightarrow>
         \<not> startswith (H (py_str idx @ now @ dat @ prev @ py_str n)) (zeros d))) \<and>
   (Block_exam H now idx dat prev d = Some e \<longrightarrow>
      hash e = calculate_hash H e \<and> startswith (hash e) (zeros d) \<and>
      index e = idx \<and> timestamp e = now \<and> data e = dat \<and> previous_hash e = prev \<and>
      blk_difficulty e = d \<and> 0 \<le> nonce e \<and>
      (\<forall>n. 0 \<le> n \<and> n < nonce e \<longrightarrow>
         \<not> startswith (H (py_str idx @ now @ dat @ prev @ py_str n)) (zeros d)))"
proof (intro conjI impI)
  let ?b0 = "\<lparr>index = idx, timestamp = now, data = dat, previous_hash = prev, nonce = 0\<rparr>"
  let ?k = "LEAST k. accepts H d ?b0 k"
  {
    assume m9: "Block_m9 H now idx dat prev d = Some b"
    then have ex: "\<exists>k. accepts H d ?b0 k"
      by (auto simp: Block_m9_result split: if_splits)
    then have acc: "accepts H d ?b0 ?k"
      by (metis LeastI)
    have b: "b = \<lparr>index = idx, timestamp = now, data = dat, previous_hash = prev,
                  nonce = int ?k, hash = H (py_str idx @ now @ dat @ prev @ py_str (int ?k))\<rparr>"
      using m9 ex by (auto simp: Block_m9_result)
    show "hash b = calculate_hash H b" by (simp add: b calculate_hash_def)
    show "startswith (hash b) (zeros d)" using acc by (simp add: b accepts_fresh)
    show "index b = idx" "timestamp b = now" "data b = dat" "previous_hash b = prev" "0 \<le> nonce b"
      by (simp_all add: b)
    show "\<forall>n. 0 \<le> n \<and> n < nonce b \<longrightarrow>
         \<not> startswith (H (py_str idx @ now @ dat @ prev @ py_str n)) (zeros d)"
      using failed_attempts by (simp add: b)
  }
  {
    assume ex: "Block_exam H now idx dat prev d = Some e"
    then have ex': "\<exists>k. accepts H d ?b0 k"
      by (auto simp: Block_exam_result split: if_splits)
    then have acc: "accepts H d ?b0 ?k"
      by (metis LeastI)
    have e: "e = \<lparr>index = idx, timestamp = now, data = dat, previous_hash = prev,
                  nonce = int ?k, hash = H (py_str idx @ now @ dat @ prev @ py_str (int ?k)),
                  blk_difficulty = d\<rparr>"
      using ex ex' by (auto simp: Block_exam_result)
    show "hash e = calculate_hash H e" by (simp add: e calculate_hash_def)
    show "startswith (hash e) (zeros d)" using acc by (simp add: e accepts_fresh)
    show "index e = idx" "timestamp e = now" "data e = dat" "previous_hash e = prev"
      "blk_difficulty e = d" "0 \<le> nonce e"
      by (simp_all add: e)
    show "\<forall>n. 0 \<le> n \<and> n < nonce e \<longrightarrow>
         \<not> startswith (H (py_str idx @ now @ dat @ prev @ py_str n)) (zeros d)"
      using failed_attempts by (simp add: e)
  }
qed

theorem block_mined_witness:
  "Block_m9 toy_hasher ''17.5'' 1 ''x'' ''0'' 3 =
     Some \<lparr>index = 1, timestamp = ''17.5'', data = ''x'', previous_hash = ''0'', nonce = 4,
           hash = ''000472''\<rparr> \<and>
   Block_exam toy_hasher ''17.5'' 1 ''x'' ''0'' 3 =
     Some \<lparr>index = 1, timestamp = ''17.5'', data = ''x'', previous_hash = ''0'', nonce = 4,
           hash = ''000472'', blk_difficulty = 3\<rparr> \<and>
   ''000472'' = calculate_hash toy_hasher
     \<lparr>index = 1, timestamp = ''17.5'', data = ''x'', previous_hash = ''0'', nonce = 4,
      hash = ''000472''\<rparr> \<and>
   startswith ''000472'' (zeros 3) \<and>
   \<not> startswith (toy_hasher (py_str 1 @ ''17.5'' @ ''x'' @ ''0'' @ py_str 2)) (zeros 3)"
proof -
  let ?B = "\<lparr>index = 1, timestamp = ''17.5'', data = ''x'', previous_hash = ''0'', nonce = 4,
             hash = ''000472''\<rparr>"
  let ?E = "\<lparr>index = 1, timestamp = ''17.5'', data = ''x'', previous_hash = ''0'', nonce = 4,
             hash = ''000472'', blk_difficulty = 3\<rparr>"
  have m9: "Block_m9 toy_hasher ''17.5'' 1 ''x'' ''0'' 3 = Some ?B"
    by code_simp
  have ex: "Block_exam toy_hasher ''17.5'' 1 ''x'' ''0'' 3 = Some ?E"
    by code_simp
  show ?thesis
    using block_mined [of toy_hasher "''17.5''" 1 "''x''" "''0''" 3 ?B ?E] m9 ex
    by force
qed

section \<open>The Merkle aggregator\<close>

subsection \<open>Both versions always return, and return the same root\<close>

lemma combine_pairs_length: "combine_pairs H xs = Inr ys \<Longrightarrow> 2 * length ys = length xs"
  by (induction H xs arbitrary: ys rule: combine_pairs.induct) (auto split: sum.splits)

lemma combine_pairs_even: "even (length xs) \<Longrightarrow> \<exists>ys. combine_pairs H xs = Inr ys"
  by (induction H xs rule: combine_pairs.induct) auto

lemma pad_level_even: "even (length (pad_level xs))"
  by (auto simp: pad_level_def even_iff_mod_2_eq_zero mod_Suc)

lemma pad_level_Nil: "pad_level xs = [] \<longleftrightarrow> xs = []"
  by (auto simp: pad_level_def)

lemma reduce_levels_short: "length xs \<le> 1 \<Longrightarrow> reduce_levels H xs = Inr xs"
  by (subst reduce_levels.simps) simp

lemma reduce_levels_long:
  "1 < length xs \<Longrightarrow>
   reduce_levels H xs =
     (case combine_pairs H (pad_level xs) of Inl e \<Rightarrow> Inl e | Inr ys \<Rightarrow> reduce_levels H ys)"
  by (subst reduce_levels.simps) simp

lemma reduce_levels_root: "xs \<noteq> [] \<Longrightarrow> \<exists>r. reduce_levels H xs = Inr [r]"
proof (induction H xs rule: reduce_levels.induct)
  case (1 H xs)
  show ?case
  proof (cases "1 < length xs")
    case True
    obtain ys where ys: "combine_pairs H (pad_level xs) = Inr ys"
      using combine_pairs_even [OF pad_level_even] by blast
    have "2 * length ys = length (pad_level xs)"
      using ys by (rule combine_pairs_length)
    then have "ys \<noteq> []"
      using "1.prems" by (auto simp: pad_level_Nil)
    then obtain r where "reduce_levels H ys = Inr [r]"
      using "1.IH" [OF True ys] by blast
    then show ?thesis
      using True ys by (simp add: reduce_levels_long)
  next
    case False
    then obtain x where "xs = [x]"
      using "1.prems" by (cases xs) auto
    then show ?thesis
      by (simp add: reduce_levels_short)
  qed
qed

lemma calculate_merkle_root_exam_total:
  "\<exists>r. calculate_merkle_root_exam H hashes = Inr r \<and> (r = None \<longleftrightarrow> hashes = [])"
proof (cases "hashes = []")
  case True
  then show ?thesis by (simp add: calculate_merkle_root_exam_def)
next
  case False
  then obtain r where "reduce_levels H hashes = Inr [r]"
    using reduce_levels_root by blast
  then show ?thesis
    using False by (simp add: calculate_merkle_root_exam_def return_first_def)
qed

lemma m9_loop_short: "length (st h) \<le> 1 \<Longrightarrow> m9_loop H st fresh h = (return_first (st h), st)"
  by (subst m9_loop.simps) simp

lemma m9_loop_long:
  "1 < length (st h) \<Longrightarrow>
   m9_loop H st fresh h =
     (case combine_pairs H (pad_level (st h)) of
        Inl e \<Rightarrow> (Inl e, st(h := pad_level (st h)))
      | Inr new_level \<Rightarrow> m9_loop H ((st(h := pad_level (st h)))(fresh := new_level)) (Suc fresh) fresh)"
  by (subst m9_loop.simps) (simp add: Let_def)

lemma m9_loop_spec:
  "h < fresh \<Longrightarrow>
   fst (m9_loop H st fresh h) =
     (case reduce_levels H (st h) of Inl e \<Rightarrow> Inl e | Inr level \<Rightarrow> return_first level) \<and>
   (\<forall>a<fresh. snd (m9_loop H st fresh h) a =
      (if a = h \<and> 1 < length (st h) then pad_level (st h) else st a))"
proof (induction H st fresh h rule: m9_loop.induct)
  case (1 H st fresh h)
  show ?case
  proof (cases "1 < length (st h)")
    case True
    let ?st1 = "st(h := pad_level (st h))"
    obtain ys where ys: "combine_pairs H (pad_level (st h)) = Inr ys"
      using combine_pairs_even [OF pad_level_even] by blast
    have ys1: "combine_pairs H (?st1 h) = Inr ys"
      using ys by simp
    have IH: "fst (m9_loop H (?st1(fresh := ys)) (Suc fresh) fresh) =
        (case reduce_levels H ((?st1(fresh := ys)) fresh) of Inl e \<Rightarrow> Inl e | Inr level \<Rightarrow> return_first level) \<and>
      (\<forall>a<Suc fresh. snd (m9_loop H (?st1(fresh := ys)) (Suc fresh) fresh) a =
        (if a = fresh \<and> 1 < length ((?st1(fresh := ys)) fresh)
         then pad_level ((?st1(fresh := ys)) fresh) else (?st1(fresh := ys)) a))"
      by (rule "1.IH" [OF True refl ys1]) simp
    have unfold: "m9_loop H st fresh h = m9_loop H (?st1(fresh := ys)) (Suc fresh) fresh"
      using True ys by (simp add: m9_loop_long)
    show ?thesis
      using IH True ys "1.prems" unfolding unfold
      by (auto simp: reduce_levels_long)
  next
    case False
    then show ?thesis
      by (simp add: m9_loop_short reduce_levels_short)
  qed
qed

lemma calculate_merkle_root_m9_spec:
  "calculate_merkle_root_m9 H hashes =
     (calculate_merkle_root_exam H hashes,
      if 1 < length hashes then pad_level hashes else hashes)"
proof (cases "hashes = []")
  case True
  then show ?thesis
    by (simp add: calculate_merkle_root_m9_def calculate_merkle_root_exam_def)
next
  case False
  have "(0::nat) < 1" by simp
  from m9_loop_spec [OF this, of H "(\<lambda>_. [])(0 := hashes)"]
  show ?thesis
    using False
    by (simp add: calculate_merkle_root_m9_def calculate_merkle_root_exam_def split_beta prod_eq_iff)
qed

text \<open>
  C5. For all digests \<open>a\<close>, \<open>b\<close>, \<open>c\<close> and in both scripts: the root of \<open>[a, b]\<close> is the digest of
  \<open>a\<close> followed by \<open>b\<close>, and the root of \<open>[a, b, c]\<close> is the root of \<open>[a, b, c, c]\<close>, namely the
  digest of the digests of \<open>a + b\<close> and \<open>c + c\<close>: a level of odd length is reduced with its last
  element doubled.
\<close>

theorem merkle_root_pair_and_odd_padding:
  "calculate_merkle_root_exam H [a, b] = Inr (Some (H (a @ b))) \<and>
   calculate_merkle_root_exam H [a, b, c] = calculate_merkle_root_exam H [a, b, c, c] \<and>
   calculate_merkle_root_exam H [a, b, c] = Inr (Some (H (H (a @ b) @ H (c @ c)))) \<and>
   fst (calculate_merkle_root_m9 H [a, b]) = Inr (Some (H (a @ b))) \<and>
   fst (calculate_merkle_root_m9 H [a, b, c]) = fst (calculate_merkle_root_m9 H [a, b, c, c]) \<and>
   fst (calculate_merkle_root_m9 H [a, b, c]) = Inr (Some (H (H (a @ b) @ H (c @ c))))"
proof -
  have two: "reduce_levels H [x, y] = Inr [H (x @ y)]" for x y
    by (simp add: reduce_levels_long reduce_levels_short pad_level_def)
  have three: "reduce_levels H [a, b, c] = Inr [H (H (a @ b) @ H (c @ c))]"
    by (simp add: reduce_levels_long two pad_level_def)
  have four: "reduce_levels H [a, b, c, c] = Inr [H (H (a @ b) @ H (c @ c))]"
    by (simp add: reduce_levels_long two pad_level_def)
  show ?thesis
    by (simp add: calculate_merkle_root_m9_spec calculate_merkle_root_exam_def
          return_first_def two three four)
qed

text \<open>
  C8. The aggregator of \<^verbatim>\<open>merkle9chain.py\<close> writes to its argument: called on the list
  \<open>[a, b, c]\<close> it leaves the caller's list as \<open>[a, b, c, c]\<close>, one element longer. (The
  aggregator of \<^verbatim>\<open>exam.py\<close> works on a copy; \<open>calculate_merkle_root_m9_spec\<close> gives the
  caller's list after any call, and shows that both versions return the same root.)
\<close>

theorem calculate_merkle_root_m9_appends_to_argument:
  "snd (calculate_merkle_root_m9 H [a, b, c]) = [a, b, c, c] \<and>
   length (snd (calculate_merkle_root_m9 H [a, b, c])) = 4"
  by (simp add: calculate_merkle_root_m9_spec pad_level_def)

section \<open>Validation\<close>

lemma findings_at_unfold:
  "findings_at H prefix blocks i =
     (if hash (blocks ! i) \<noteq> calculate_hash H (blocks ! i) then [(i, HashMismatch)] else [])
     @ (if previous_hash (blocks ! i) \<noteq> hash (blocks ! (i - 1)) then [(i, PreviousHashMismatch)] else [])
     @ (if \<not> startswith (hash (blocks ! i)) prefix then [(i, DifficultyFailure)] else [])"
  by (simp add: findings_at_def check_fails_def)

lemma collect_invalid_blocks_concat:
  "collect_invalid_blocks H prefix blocks acc is =
     acc @ concat (map (findings_at H prefix blocks) is)"
  by (induction "is" arbitrary: acc) (simp_all add: findings_at_unfold)

lemma invalid_blocks_m9_concat:
  "invalid_blocks_m9 H bc =
     concat (map (findings_at H (zeros (difficulty bc)) (chain bc)) [1 ..< length (chain bc)])"
  by (simp add: invalid_blocks_m9_def collect_invalid_blocks_concat)

lemma in_findings_at:
  "((j, k) \<in> set (findings_at H prefix blocks i)) = (j = i \<and> check_fails H prefix blocks i k)"
  by (cases k) (auto simp: findings_at_def)

lemma in_invalid_blocks_m9:
  "((i, k) \<in> set (invalid_blocks_m9 H bc)) =
     (1 \<le> i \<and> i < length (chain bc) \<and> check_fails H (zeros (difficulty bc)) (chain bc) i k)"
  by (auto simp: invalid_blocks_m9_concat in_findings_at)

lemma first_problem_exam_concat:
  "first_problem_exam H prefix blocks is =
     (case concat (map (findings_at H prefix blocks) is) of
        [] \<Rightarrow> None
      | (i, k) # _ \<Rightarrow> Some (index (blocks ! i), k))"
  by (induction "is") (simp_all add: findings_at_unfold)

lemma reported_exam_first:
  "reported_exam H bc =
     (case invalid_blocks_m9 H bc of
        [] \<Rightarrow> None
      | (i, k) # _ \<Rightarrow> Some (index (chain bc ! i), k))"
  by (simp add: reported_exam_def invalid_blocks_m9_concat first_problem_exam_concat)

lemma reported_exam_None:
  "(reported_exam H bc = None) = (invalid_blocks_m9 H bc = [])"
  by (simp add: reported_exam_first split: list.splits)

lemma invalid_blocks_m9_Nil:
  "(invalid_blocks_m9 H bc = []) =
     (\<forall>i k. 1 \<le> i \<and> i < length (chain bc) \<longrightarrow> \<not> check_fails H (zeros (difficulty bc)) (chain bc) i k)"
proof -
  have "(invalid_blocks_m9 H bc = []) = (\<forall>i k. (i, k) \<notin> set (invalid_blocks_m9 H bc))"
    by (cases "invalid_blocks_m9 H bc") auto
  then show ?thesis
    by (auto simp: in_invalid_blocks_m9)
qed

lemma is_chain_valid_exam_value:
  "is_chain_valid_exam H bc =
     Inr (invalid_blocks_m9 H bc = [] \<and>
          calculate_merkle_root_exam H (map hash (chain bc)) = Inr (merkle_root bc))"
proof -
  obtain r where r: "calculate_merkle_root_exam H (map hash (chain bc)) = Inr r"
    using calculate_merkle_root_exam_total by blast
  show ?thesis
  proof (cases "reported_exam H bc")
    case None
    then show ?thesis
      using r reported_exam_None [of H bc] by (simp add: is_chain_valid_exam_def)
  next
    case (Some f)
    then have "invalid_blocks_m9 H bc \<noteq> []"
      using reported_exam_None [of H bc] by simp
    then show ?thesis
      using Some by (simp add: is_chain_valid_exam_def)
  qed
qed

lemma is_chain_valid_m9_value:
  "is_chain_valid_m9 H bc = Inr (invalid_blocks_m9 H bc = [])"
proof -
  obtain r where r: "calculate_merkle_root_exam H (map hash (chain bc)) = Inr r"
    using calculate_merkle_root_exam_total by blast
  then show ?thesis
    by (simp add: is_chain_valid_m9_def calculate_merkle_root_m9_spec)
qed


lemma py_str_0: "py_str 0 = ''0''"
  by code_simp

lemma mine_block_difficulty_0: "mine_block H 0 b = Some (calculate_hash H b, b)"
  by (subst mine_block.simps) (simp add: startswith_def zeros_def)

lemma merkle_root_single: "calculate_merkle_root_exam H [h] = Inr (Some h)"
  by (simp add: calculate_merkle_root_exam_def reduce_levels_short return_first_def)

text \<open>
  C1. In \<^verbatim>\<open>merkle9chain.py\<close> the Merkle comparison does not reach the result. The chain
  \<^verbatim>\<open>Blockchain(difficulty=0)\<close> returns with \<open>merkle_root = None\<close>; the root recomputed over its one
  hash is that hash, so the two differ, and \<open>is_chain_valid\<close> still returns \<open>True\<close>. More
  generally the result does not depend on the cached \<open>merkle_root\<close> at all. (For \<^verbatim>\<open>exam.py\<close>
  the equivalence of the claim holds: \<open>is_chain_valid_exam_value\<close> and \<open>invalid_blocks_m9_Nil\<close>.)
\<close>

theorem is_chain_valid_m9_ignores_merkle_root:
  "Blockchain_m9 H now 0 =
     Some \<lparr>difficulty = 0,
           chain = [\<lparr>index = 0, timestamp = now, data = ''Genesis Block'', previous_hash = ''0'',
                     nonce = 0, hash = H (''0'' @ now @ ''Genesis Block'' @ ''0'' @ ''0'')\<rparr>],
           merkle_root = None\<rparr> \<and>
   fst (calculate_merkle_root_m9 H
          (map hash [\<lparr>index = 0, timestamp = now, data = ''Genesis Block'', previous_hash = ''0'',
                      nonce = 0, hash = H (''0'' @ now @ ''Genesis Block'' @ ''0'' @ ''0'')\<rparr>])) =
     Inr (Some (H (''0'' @ now @ ''Genesis Block'' @ ''0'' @ ''0''))) \<and>
   is_chain_valid_m9 H
     \<lparr>difficulty = 0,
      chain = [\<lparr>index = 0, timestamp = now, data = ''Genesis Block'', previous_hash = ''0'',
                nonce = 0, hash = H (''0'' @ now @ ''Genesis Block'' @ ''0'' @ ''0'')\<rparr>],
      merkle_root = None\<rparr> = Inr True \<and>
   is_chain_valid_m9 H (bc\<lparr>merkle_root := r\<rparr>) = is_chain_valid_m9 H bc"
proof (intro conjI)
  show "Blockchain_m9 H now 0 =
     Some \<lparr>difficulty = 0,
           chain = [\<lparr>index = 0, timestamp = now, data = ''Genesis Block'', previous_hash = ''0'',
                     nonce = 0, hash = H (''0'' @ now @ ''Genesis Block'' @ ''0'' @ ''0'')\<rparr>],
           merkle_root = None\<rparr>"
    by (simp add: Blockchain_m9_def create_genesis_block_m9_def Block_m9_def
          mine_block_difficulty_0 calculate_hash_def py_str_0)
  show "fst (calculate_merkle_root_m9 H
          (map hash [\<lparr>index = 0, timestamp = now, data = ''Genesis Block'', previous_hash = ''0'',
                      nonce = 0, hash = H (''0'' @ now @ ''Genesis Block'' @ ''0'' @ ''0'')\<rparr>])) =
     Inr (Some (H (''0'' @ now @ ''Genesis Block'' @ ''0'' @ ''0'')))"
    by (simp add: calculate_merkle_root_m9_spec merkle_root_single)
  show "is_chain_valid_m9 H
     \<lparr>difficulty = 0,
      chain = [\<lparr>index = 0, timestamp = now, data = ''Genesis Block'', previous_hash = ''0'',
                nonce = 0, hash = H (''0'' @ now @ ''Genesis Block'' @ ''0'' @ ''0'')\<rparr>],
      merkle_root = None\<rparr> = Inr True"
    by (simp add: is_chain_valid_m9_value invalid_blocks_m9_def)
  show "is_chain_valid_m9 H (bc\<lparr>merkle_root := r\<rparr>) = is_chain_valid_m9 H bc"
    by (simp add: is_chain_valid_m9_value invalid_blocks_m9_def)
qed

text \<open>
  C2, as amended. In \<^verbatim>\<open>merkle9chain.py\<close> the list \<open>invalid_blocks\<close> is, in order, every pair of a
  block index \<open>i \<ge> 1\<close> and a check that fails there, each once: no check is skipped after an
  earlier one has failed. In \<^verbatim>\<open>exam.py\<close> there is no list: validation reports the first such
  pair only (with the block's \<open>index\<close> attribute for its position) and returns.
\<close>

theorem findings_recorded:
  "invalid_blocks_m9 H bc =
     concat (map (findings_at H (zeros (difficulty bc)) (chain bc)) [1 ..< length (chain bc)]) \<and>
   ((i, k) \<in> set (invalid_blocks_m9 H bc)) =
     (1 \<le> i \<and> i < length (chain bc) \<and> check_fails H (zeros (difficulty bc)) (chain bc) i k) \<and>
   distinct (invalid_blocks_m9 H bc) \<and>
   reported_exam H bc =
     (case invalid_blocks_m9 H bc of
        [] \<Rightarrow> None
      | (j, p) # _ \<Rightarrow> Some (index (chain bc ! j), p))"
proof (intro conjI)
  have d1: "distinct (findings_at H prefix blocks j)" for prefix j and blocks :: "'a block_scheme list"
    by (simp add: findings_at_def distinct_map inj_on_def)
  have d2: "distinct (concat (map (findings_at H prefix blocks) js))"
    if "distinct js" for prefix js and blocks :: "'a block_scheme list"
    using that
  proof (induction js)
    case Nil
    show ?case by simp
  next
    case (Cons j js)
    have "set (findings_at H prefix blocks j) \<inter> set (concat (map (findings_at H prefix blocks) js)) = {}"
      using Cons.prems by (auto simp: findings_at_def)
    then show ?case
      using Cons d1 by simp
  qed
  show "distinct (invalid_blocks_m9 H bc)"
    by (simp add: invalid_blocks_m9_concat d2)
qed (rule invalid_blocks_m9_concat in_invalid_blocks_m9 reported_exam_first)+

lemma two_faults_chain_findings:
  "check_fails H (zeros (difficulty two_faults_chain)) (chain two_faults_chain) 1 PreviousHashMismatch"
  "check_fails H (zeros (difficulty two_faults_chain)) (chain two_faults_chain) 1 DifficultyFailure"
  "reported_exam H two_faults_chain \<noteq> Some (1, PreviousHashMismatch) \<or>
   reported_exam H two_faults_chain \<noteq> Some (1, DifficultyFailure)"
  "reported_exam H two_faults_chain \<noteq> Some (1, DifficultyFailure)"
  "is_chain_valid_exam H two_faults_chain = Inr False"
proof -
  show prev: "check_fails H (zeros (difficulty two_faults_chain)) (chain two_faults_chain) 1 PreviousHashMismatch"
    by (simp add: check_fails_def two_faults_chain_def)
  show "check_fails H (zeros (difficulty two_faults_chain)) (chain two_faults_chain) 1 DifficultyFailure"
    by (simp add: check_fails_def two_faults_chain_def startswith_def zeros_def)
  show never: "reported_exam H two_faults_chain \<noteq> Some (1, DifficultyFailure)"
    by (simp add: reported_exam_def two_faults_chain_def startswith_def zeros_def)
  then show "reported_exam H two_faults_chain \<noteq> Some (1, PreviousHashMismatch) \<or>
      reported_exam H two_faults_chain \<noteq> Some (1, DifficultyFailure)"
    by simp
  have "length (chain two_faults_chain) = 2"
    by (simp add: two_faults_chain_def)
  then have "(1, PreviousHashMismatch) \<in> set (invalid_blocks_m9 H two_faults_chain)"
    using prev by (simp add: in_invalid_blocks_m9)
  then have "invalid_blocks_m9 H two_faults_chain \<noteq> []"
    by auto
  then show "is_chain_valid_exam H two_faults_chain = Inr False"
    by (simp add: is_chain_valid_exam_value)
qed

text \<open>
  Recording every finding is not what \<^verbatim>\<open>exam.py\<close> does. In \<open>two_faults_chain\<close> block 1 fails all three checks
  under \<open>toy_hasher\<close>; validation prints the hash mismatch, returns \<open>False\<close>, and the two other
  findings of block 1 are never reported. (By \<open>two_faults_chain_findings\<close> the link and the
  difficulty failure are there, and the difficulty failure goes unreported, under every
  digest function.)
\<close>

theorem exam_reports_one_finding_counterexample:
  "check_fails toy_hasher (zeros (difficulty two_faults_chain)) (chain two_faults_chain) 1 HashMismatch \<and>
   check_fails toy_hasher (zeros (difficulty two_faults_chain)) (chain two_faults_chain) 1 PreviousHashMismatch \<and>
   check_fails toy_hasher (zeros (difficulty two_faults_chain)) (chain two_faults_chain) 1 DifficultyFailure \<and>
   invalid_blocks_m9 toy_hasher two_faults_chain =
     [(1, HashMismatch), (1, PreviousHashMismatch), (1, DifficultyFailure)] \<and>
   reported_exam toy_hasher two_faults_chain = Some (1, HashMismatch) \<and>
   is_chain_valid_exam toy_hasher two_faults_chain = Inr False"
proof -
  have listed: "invalid_blocks_m9 toy_hasher two_faults_chain =
     [(1, HashMismatch), (1, PreviousHashMismatch), (1, DifficultyFailure)]"
    by code_simp
  have "(1, HashMismatch) \<in> set (invalid_blocks_m9 toy_hasher two_faults_chain)"
    by (simp add: listed)
  then have "check_fails toy_hasher (zeros (difficulty two_faults_chain)) (chain two_faults_chain) 1 HashMismatch"
    by (simp add: in_invalid_blocks_m9)
  moreover have "index (chain two_faults_chain ! 1) = 1"
    by (simp add: two_faults_chain_def)
  then have "reported_exam toy_hasher two_faults_chain = Some (1, HashMismatch)"
    by (simp add: reported_exam_first listed)
  ultimately show ?thesis
    using listed two_faults_chain_findings [of toy_hasher] by simp
qed

lemma Blockchain_m9_Some:
  "Blockchain_m9 H now d = Some bc \<Longrightarrow>
   \<exists>g. Block_m9 H now 0 ''Genesis Block'' ''0'' d = Some g \<and>
       bc = \<lparr>difficulty = d, chain = [g], merkle_root = None\<rparr>"
  by (auto simp: Blockchain_m9_def create_genesis_block_m9_def split: option.splits)

lemma Blockchain_exam_Some:
  "Blockchain_exam H now d = Some bc \<Longrightarrow>
   \<exists>g. Block_exam H now 0 ''Genesis Block'' ''0'' d = Some g \<and>
       bc = \<lparr>difficulty = d, chain = [g], merkle_root = None\<rparr>"
  by (auto simp: Blockchain_exam_def create_genesis_block_exam_def split: option.splits)

lemma invalid_blocks_m9_single: "length (chain bc) = 1 \<Longrightarrow> invalid_blocks_m9 H bc = []"
  by (simp add: invalid_blocks_m9_def)

text \<open>
  C7, as amended. A chain as its constructor returns it (in either script) holds the genesis
  block alone and validation finds no per-block problem in it. Its attribute \<open>merkle_root\<close>
  is \<open>None\<close>: no root is cached yet. The Merkle root of its hash sequence is the genesis
  block's hash, and that is what \<open>compute_merkle_root\<close> returns and caches once it is called.
  Until then \<open>is_chain_valid\<close> of \<^verbatim>\<open>exam.py\<close> returns \<open>False\<close> on the fresh chain, because the
  recomputed root differs from the cached \<open>None\<close>.
\<close>

theorem fresh_chain:
  "(Blockchain_m9 H now d = Some bc \<longrightarrow>
      (\<exists>genesis. chain bc = [genesis] \<and>
         invalid_blocks_m9 H bc = [] \<and>
         merkle_root bc = None \<and>
         fst (calculate_merkle_root_m9 H (map hash (chain bc))) = Inr (Some (hash genesis)) \<and>
         compute_merkle_root_m9 H bc =
           Inr (Some (hash genesis), bc\<lparr>merkle_root := Some (hash genesis)\<rparr>))) \<and>
   (Blockchain_exam H now d = Some ec \<longrightarrow>
      (\<exists>genesis. chain ec = [genesis] \<and>
         reported_exam H ec = None \<and>
         merkle_root ec = None \<and>
         calculate_merkle_root_exam H (map hash (chain ec)) = Inr (Some (hash genesis)) \<and>
         compute_merkle_root_exam H ec =
           Inr (Some (hash genesis), ec\<lparr>merkle_root := Some (hash genesis)\<rparr>) \<and>
         is_chain_valid_exam H ec = Inr False))"
proof (intro conjI impI)
  assume "Blockchain_m9 H now d = Some bc"
  then obtain g where bc: "bc = \<lparr>difficulty = d, chain = [g], merkle_root = None\<rparr>"
    using Blockchain_m9_Some by blast
  have "invalid_blocks_m9 H bc = []"
    by (rule invalid_blocks_m9_single) (simp add: bc)
  moreover have "fst (calculate_merkle_root_m9 H (map hash (chain bc))) = Inr (Some (hash g))"
    by (simp add: bc calculate_merkle_root_m9_spec merkle_root_single)
  moreover from this have "compute_merkle_root_m9 H bc =
      Inr (Some (hash g), bc\<lparr>merkle_root := Some (hash g)\<rparr>)"
    by (simp add: compute_merkle_root_m9_def)
  ultimately show "\<exists>genesis. chain bc = [genesis] \<and>
         invalid_blocks_m9 H bc = [] \<and>
         merkle_root bc = None \<and>
         fst (calculate_merkle_root_m9 H (map hash (chain bc))) = Inr (Some (hash genesis)) \<and>
         compute_merkle_root_m9 H bc =
           Inr (Some (hash genesis), bc\<lparr>merkle_root := Some (hash genesis)\<rparr>)"
    using bc by simp
next
  assume "Blockchain_exam H now d = Some ec"
  then obtain g where ec: "ec = \<lparr>difficulty = d, chain = [g], merkle_root = None\<rparr>"
    using Blockchain_exam_Some by blast
  have none: "invalid_blocks_m9 H ec = []"
    by (rule invalid_blocks_m9_single) (simp add: ec)
  then have rep: "reported_exam H ec = None"
    by (simp add: reported_exam_None)
  have root: "calculate_merkle_root_exam H (map hash (chain ec)) = Inr (Some (hash g))"
    by (simp add: ec merkle_root_single)
  then have comp: "compute_merkle_root_exam H ec =
      Inr (Some (hash g), ec\<lparr>merkle_root := Some (hash g)\<rparr>)"
    by (simp add: compute_merkle_root_exam_def)
  have cache: "merkle_root ec = None"
    by (simp add: ec)
  have "is_chain_valid_exam H ec = Inr False"
    using root cache by (simp add: is_chain_valid_exam_value)
  then show "\<exists>genesis. chain ec = [genesis] \<and>
         reported_exam H ec = None \<and>
         merkle_root ec = None \<and>
         calculate_merkle_root_exam H (map hash (chain ec)) = Inr (Some (hash genesis)) \<and>
         compute_merkle_root_exam H ec =
           Inr (Some (hash genesis), ec\<lparr>merkle_root := Some (hash genesis)\<rparr>) \<and>
         is_chain_valid_exam H ec = Inr False"
    using ec rep root comp by simp
qed

theorem fresh_chain_witness:
  "Blockchain_m9 toy_hasher ''17.5'' 3 = Some fresh_chain_m9 \<and>
   Blockchain_exam toy_hasher ''17.5'' 3 = Some fresh_chain_exam \<and>
   invalid_blocks_m9 toy_hasher fresh_chain_m9 = [] \<and>
   merkle_root fresh_chain_m9 = None \<and>
   fst (calculate_merkle_root_m9 toy_hasher (map hash (chain fresh_chain_m9))) =
     Inr (Some ''0001592'') \<and>
   reported_exam toy_hasher fresh_chain_exam = None \<and>
   merkle_root fresh_chain_exam = None \<and>
   calculate_merkle_root_exam toy_hasher (map hash (chain fresh_chain_exam)) =
     Inr (Some ''0001592'') \<and>
   compute_merkle_root_exam toy_hasher fresh_chain_exam =
     Inr (Some ''0001592'', fresh_chain_exam\<lparr>merkle_root := Some ''0001592''\<rparr>) \<and>
   is_chain_valid_exam toy_hasher fresh_chain_exam = Inr False"
proof -
  have m9: "Blockchain_m9 toy_hasher ''17.5'' 3 = Some fresh_chain_m9"
    by code_simp
  have ex: "Blockchain_exam toy_hasher ''17.5'' 3 = Some fresh_chain_exam"
    by code_simp
  have g: "chain fresh_chain_m9 = [genesis] \<Longrightarrow> hash genesis = ''0001592''"
    "chain fresh_chain_exam = [genesis'] \<Longrightarrow> hash genesis' = ''0001592''"
    for genesis :: block and genesis' :: exam_block
    by (auto simp: fresh_chain_m9_def fresh_chain_exam_def)
  show ?thesis
    using fresh_chain [of toy_hasher "''17.5''" 3 fresh_chain_m9 fresh_chain_exam] m9 ex g
    by auto
qed

text \<open>
  The claim as stated, that a fresh chain's Merkle root is the genesis hash before any other
  operation, fails on the stored root: the chain \<^verbatim>\<open>Blockchain(3)\<close> of \<^verbatim>\<open>exam.py\<close>, built with
  \<open>toy_hasher\<close>, has \<open>merkle_root = None\<close> while its genesis hash is \<open>0001592\<close>, and its own
  \<open>is_chain_valid\<close> reports the mismatch. The chain of \<^verbatim>\<open>merkle9chain.py\<close> has the same
  \<open>None\<close>.
\<close>

theorem fresh_chain_root_unset_counterexample:
  "Blockchain_exam toy_hasher ''17.5'' 3 = Some fresh_chain_exam \<and>
   merkle_root fresh_chain_exam = None \<and>
   map hash (chain fresh_chain_exam) = [''0001592''] \<and>
   merkle_root fresh_chain_exam \<noteq> Some ''0001592'' \<and>
   is_chain_valid_exam toy_hasher fresh_chain_exam = Inr False \<and>
   Blockchain_m9 toy_hasher ''17.5'' 3 = Some fresh_chain_m9 \<and>
   merkle_root fresh_chain_m9 = None \<and>
   map hash (chain fresh_chain_m9) = [''0001592'']"
proof -
  have "Blockchain_exam toy_hasher ''17.5'' 3 = Some fresh_chain_exam"
    by code_simp
  moreover have "Blockchain_m9 toy_hasher ''17.5'' 3 = Some fresh_chain_m9"
    by code_simp
  moreover have "is_chain_valid_exam toy_hasher fresh_chain_exam = Inr False"
    by code_simp
  ultimately show ?thesis
    by (simp add: fresh_chain_exam_def fresh_chain_m9_def)
qed

section \<open>Network\<close>

subsection \<open>majority_vote\<close>

lemma count_valid_value:
  "count_valid H bcs = Inr (length (filter (\<lambda>bc. is_chain_valid_exam H bc = Inr True) bcs))"
  by (induction bcs) (simp_all add: is_chain_valid_exam_value)

lemma majority_vote_value:
  "majority_vote H net = Inr (length (nodes net) div 2 < valid_replicas H net)"
  by (simp add: majority_vote_def count_valid_value valid_replicas_def)

lemma valid_replicas_le: "valid_replicas H net \<le> length (nodes net)"
  by (simp add: valid_replicas_def)

lemma half_as_real: "(real n / 2 < real v) = (n < 2 * v)"
proof -
  have "(real n / 2 < real v) = (real n < real (2 * v))"
    by (simp add: field_simps)
  also have "\<dots> = (n < 2 * v)"
    by (rule of_nat_less_iff)
  finally show ?thesis .
qed

text \<open>
  C4. For a network with an odd number \<open>n\<close> of replicas, \<open>majority_vote\<close> returns \<open>True\<close> exactly
  when the number of replicas whose \<open>is_chain_valid\<close> returns \<open>True\<close> is greater than \<open>n / 2\<close>
  (as a real number), which is the same as greater than \<open>n div 2\<close>; and the valid replicas
  are never as many as the others, so there is no tie.
\<close>

theorem majority_vote_odd:
  assumes "odd (length (nodes net))"
  shows "majority_vote H net = Inr (real (length (nodes net)) / 2 < real (valid_replicas H net)) \<and>
     (real (length (nodes net)) / 2 < real (valid_replicas H net)) =
       (length (nodes net) div 2 < valid_replicas H net) \<and>
     valid_replicas H net \<noteq> length (nodes net) - valid_replicas H net"
proof -
  have floor: "(length (nodes net) div 2 < valid_replicas H net) =
       (length (nodes net) < 2 * valid_replicas H net)"
    using assms by presburger
  have tie: "valid_replicas H net \<noteq> length (nodes net) - valid_replicas H net"
    using assms valid_replicas_le [of H net] by presburger
  have as_real: "(real (length (nodes net)) / 2 < real (valid_replicas H net)) =
       (length (nodes net) div 2 < valid_replicas H net)"
    by (simp only: half_as_real floor)
  show ?thesis
    unfolding as_real using tie by (simp add: majority_vote_value)
qed

subsection \<open>corrupt_nodes\<close>



lemma falsify_idem: "falsify H (falsify H b) = falsify H b"
  by (simp add: falsify_def Let_def calculate_hash_def)

lemma length_corrupt_blocks: "length (corrupt_blocks H bs bl) = length bs"
  by (induction bl arbitrary: bs) simp_all

lemma nth_corrupt_blocks:
  "j < length bs \<Longrightarrow>
   corrupt_blocks H bs bl ! j = (if int j \<in> set bl then falsify H (bs ! j) else bs ! j)"
proof (induction bl arbitrary: bs)
  case Nil
  show ?case by simp
next
  case (Cons bidx bl)
  let ?bs1 = "if 0 \<le> bidx \<and> bidx < int (length bs)
              then bs[nat bidx := falsify H (bs ! nat bidx)] else bs"
  have len: "j < length ?bs1"
    using Cons.prems by simp
  have "corrupt_blocks H bs (bidx # bl) ! j = corrupt_blocks H ?bs1 bl ! j"
    by simp
  also have "\<dots> = (if int j \<in> set bl then falsify H (?bs1 ! j) else ?bs1 ! j)"
    using len by (rule Cons.IH)
  also have "\<dots> = (if int j \<in> set (bidx # bl) then falsify H (bs ! j) else bs ! j)"
  proof (cases "int j = bidx")
    case True
    then have "?bs1 ! j = falsify H (bs ! j)"
      using Cons.prems by auto
    then show ?thesis
      using True by (simp add: falsify_idem)
  next
    case False
    then have "?bs1 ! j = bs ! j"
      by (auto simp: nth_list_update)
    then show ?thesis
      using False by auto
  qed
  finally show ?case .
qed


lemma corrupt_blocks_skips:
  "corrupt_blocks H bs bl = corrupt_blocks H bs (filter (\<lambda>j. 0 \<le> j \<and> j < int (length bs)) bl)"
  by (rule nth_equalityI)
     (auto simp: length_corrupt_blocks nth_corrupt_blocks)

lemma compute_merkle_root_exam_value:
  "\<exists>r. calculate_merkle_root_exam H (map hash (chain bc)) = Inr r \<and>
       compute_merkle_root_exam H bc = Inr (r, bc\<lparr>merkle_root := r\<rparr>)"
proof -
  obtain r where "calculate_merkle_root_exam H (map hash (chain bc)) = Inr r"
    using calculate_merkle_root_exam_total by blast
  then show ?thesis
    by (simp add: compute_merkle_root_exam_def)
qed



lemma corrupt_nodes_step:
  "py_index (length (nodes net)) idx = Some k \<Longrightarrow>
   corrupt_nodes H net (idx # rest) bl =
     corrupt_nodes H (net\<lparr>nodes := (nodes net)[k := corrupted H bl (nodes net ! k)]\<rparr>) rest bl"
proof -
  assume k: "py_index (length (nodes net)) idx = Some k"
  let ?bc1 = "(nodes net ! k)\<lparr>chain := corrupt_blocks H (chain (nodes net ! k)) bl\<rparr>"
  obtain r where c: "compute_merkle_root_exam H ?bc1 = Inr (r, ?bc1\<lparr>merkle_root := r\<rparr>)"
    using compute_merkle_root_exam_value by blast
  then have "corrupted H bl (nodes net ! k) = ?bc1\<lparr>merkle_root := r\<rparr>"
    by (simp add: corrupted_def)
  then show ?thesis
    using k c by (simp add: Let_def)
qed


lemma py_index_beyond: "int n \<le> idx \<Longrightarrow> py_index n idx = None"
  by (simp add: py_index_def)


lemma corrupt_nodes_length:
  "corrupt_nodes H net indices bl = (res, net1) \<Longrightarrow> length (nodes net1) = length (nodes net)"
proof (induction indices arbitrary: net)
  case Nil
  then show ?case by simp
next
  case (Cons idx rest)
  show ?case
  proof (cases "py_index (length (nodes net)) idx")
    case None
    then show ?thesis
      using Cons.prems by simp
  next
    case (Some k)
    then have "corrupt_nodes H (net\<lparr>nodes := (nodes net)[k := corrupted H bl (nodes net ! k)]\<rparr>) rest bl
        = (res, net1)"
      using Cons.prems by (simp only: corrupt_nodes_step)
    then show ?thesis
      using Cons.IH by fastforce
  qed
qed

lemma corrupt_nodes_append:
  "corrupt_nodes H net pre bl = (Inr (), net1) \<Longrightarrow>
   corrupt_nodes H net (pre @ rest) bl = corrupt_nodes H net1 rest bl"
proof (induction pre arbitrary: net)
  case Nil
  then show ?case by simp
next
  case (Cons idx pre)
  show ?case
  proof (cases "py_index (length (nodes net)) idx")
    case None
    then show ?thesis
      using Cons.prems by simp
  next
    case (Some k)
    let ?net' = "net\<lparr>nodes := (nodes net)[k := corrupted H bl (nodes net ! k)]\<rparr>"
    have "corrupt_nodes H ?net' pre bl = (Inr (), net1)"
      using Cons.prems Some by (simp only: corrupt_nodes_step)
    then have "corrupt_nodes H ?net' (pre @ rest) bl = corrupt_nodes H net1 rest bl"
      by (rule Cons.IH)
    then show ?thesis
      using Some corrupt_nodes_step [of net idx k H "pre @ rest" bl] by simp
  qed
qed



text \<open>
  C10. Only the block indices are range-checked. When the replica indices before \<open>bad\<close> are
  processed without error and \<open>bad\<close> is at least the number of replicas, the call raises
  \<^verbatim>\<open>IndexError\<close>, and the network is then as the earlier indices have left it: those replicas
  stay corrupted, the later ones are never reached. A block index out of range is skipped:
  it can be dropped from the list without changing the outcome, and a list of such indices
  changes no block.
\<close>

theorem corrupt_nodes_replica_out_of_range:
  "(corrupt_nodes H net earlier blocks_to_corrupt = (Inr (), net1) \<and>
    int (length (nodes net)) \<le> bad \<longrightarrow>
      corrupt_nodes H net (earlier @ bad # later) blocks_to_corrupt = (Inl IndexError, net1)) \<and>
   corrupt_blocks H blocks blocks_to_corrupt =
     corrupt_blocks H blocks (filter (\<lambda>bidx. 0 \<le> bidx \<and> bidx < int (length blocks)) blocks_to_corrupt) \<and>
   ((\<forall>bidx \<in> set blocks_to_corrupt. bidx < 0 \<or> int (length blocks) \<le> bidx) \<longrightarrow>
      corrupt_blocks H blocks blocks_to_corrupt = blocks)"
proof (intro conjI impI)
  assume a: "corrupt_nodes H net earlier blocks_to_corrupt = (Inr (), net1) \<and>
    int (length (nodes net)) \<le> bad"
  then have "length (nodes net1) = length (nodes net)"
    using corrupt_nodes_length by blast
  then have "py_index (length (nodes net1)) bad = None"
    using a by (simp add: py_index_beyond)
  then have "corrupt_nodes H net1 (bad # later) blocks_to_corrupt = (Inl IndexError, net1)"
    by simp
  then show "corrupt_nodes H net (earlier @ bad # later) blocks_to_corrupt = (Inl IndexError, net1)"
    using a corrupt_nodes_append by simp
next
  show "corrupt_blocks H blocks blocks_to_corrupt =
     corrupt_blocks H blocks (filter (\<lambda>bidx. 0 \<le> bidx \<and> bidx < int (length blocks)) blocks_to_corrupt)"
    by (rule corrupt_blocks_skips)
next
  assume "\<forall>bidx \<in> set blocks_to_corrupt. bidx < 0 \<or> int (length blocks) \<le> bidx"
  then have "filter (\<lambda>bidx. 0 \<le> bidx \<and> bidx < int (length blocks)) blocks_to_corrupt = []"
    by (auto simp: filter_empty_conv)
  then show "corrupt_blocks H blocks blocks_to_corrupt = blocks"
    using corrupt_blocks_skips [of H blocks blocks_to_corrupt] by simp
qed

subsection \<open>falsify_block\<close>


lemma falsify_block_keeps_merkle_root:
  "merkle_root (snd (falsify_block H bc indices)) = merkle_root bc"
  by (induction indices arbitrary: bc) (auto split: option.splits)

lemma falsify_block_out_of_range:
  "int (length (chain bc)) \<le> idx \<Longrightarrow> falsify_block H bc (idx # rest) = (Inl IndexError, bc)"
  by (simp add: py_index_beyond)



subsection \<open>Network construction\<close>

lemma Block_exam_returns:
  "minable H d \<Longrightarrow> \<exists>e. Block_exam H now idx dat prev d = Some e"
  by (simp add: Block_exam_result minable_def)

lemma add_block_exam_returns:
  "minable H (difficulty bc) \<Longrightarrow> chain bc \<noteq> [] \<Longrightarrow>
   \<exists>b. add_block_exam H now dat bc = Some (Inr (bc\<lparr>chain := chain bc @ [b]\<rparr>))"
  using Block_exam_returns [of H "difficulty bc" now "int (length (chain bc))" dat "hash (last (chain bc))"]
  by (auto simp: add_block_exam_def)

lemma add_block_exam_Inr:
  "add_block_exam H now dat bc = Some (Inr bc1) \<Longrightarrow> chain bc1 \<noteq> []"
  by (auto simp: add_block_exam_def split: if_splits option.splits)

lemma add_block_exam_no_error:
  "chain bc \<noteq> [] \<Longrightarrow> add_block_exam H now dat bc \<noteq> Some (Inl e)"
  by (auto simp: add_block_exam_def split: option.splits)

lemma add_blocks_returns:
  "minable H (difficulty bc) \<Longrightarrow> chain bc \<noteq> [] \<Longrightarrow>
   \<exists>bc1. add_blocks H clock bc js = Some (Inr bc1) \<and> difficulty bc1 = difficulty bc \<and>
         length (chain bc1) = length (chain bc) + length js"
proof (induction js arbitrary: bc)
  case Nil
  show ?case by simp
next
  case (Cons j js)
  obtain b where b: "add_block_exam H (clock j) (donnee j) bc = Some (Inr (bc\<lparr>chain := chain bc @ [b]\<rparr>))"
    using add_block_exam_returns [OF Cons.prems] by blast
  let ?bc1 = "bc\<lparr>chain := chain bc @ [b]\<rparr>"
  have "minable H (difficulty ?bc1)" "chain ?bc1 \<noteq> []"
    using Cons.prems by simp_all
  then obtain bc2 where "add_blocks H clock ?bc1 js = Some (Inr bc2)"
    "difficulty bc2 = difficulty ?bc1" "length (chain bc2) = length (chain ?bc1) + length js"
    using Cons.IH by blast
  then show ?case
    using b by simp
qed

lemma add_blocks_no_error:
  "chain bc \<noteq> [] \<Longrightarrow> add_blocks H clock bc js \<noteq> Some (Inl e)"
proof (induction js arbitrary: bc)
  case Nil
  show ?case by simp
next
  case (Cons j js)
  show ?case
  proof (cases "add_block_exam H (clock j) (donnee j) bc")
    case None
    then show ?thesis by simp
  next
    case (Some res)
    show ?thesis
    proof (cases res)
      case (Inl e')
      then show ?thesis
        using Some add_block_exam_no_error [OF Cons.prems] by blast
    next
      case (Inr bc1)
      then have "chain bc1 \<noteq> []"
        using Some add_block_exam_Inr by blast
      then show ?thesis
        using Some Inr Cons.IH by simp
    qed
  qed
qed

lemma build_node_returns:
  assumes "minable H d"
  shows "\<exists>bc. build_node H clock d = Some (Inr bc) \<and> difficulty bc = d \<and> length (chain bc) = 9"
proof -
  obtain g where g: "Block_exam H (clock 0) 0 ''Genesis Block'' ''0'' d = Some g"
    using Block_exam_returns [OF assms] by blast
  let ?bc = "\<lparr>difficulty = d, chain = [g], merkle_root = None\<rparr>"
  have bc: "Blockchain_exam H (clock 0) d = Some ?bc"
    using g by (simp add: Blockchain_exam_def create_genesis_block_exam_def)
  have "minable H (difficulty ?bc)" "chain ?bc \<noteq> []"
    using assms by simp_all
  then obtain bc1 where bc1: "add_blocks H clock ?bc [1 ..< 9] = Some (Inr bc1)"
    "difficulty bc1 = difficulty ?bc" "length (chain bc1) = length (chain ?bc) + length [1 ..< (9::nat)]"
    using add_blocks_returns by blast
  obtain r where "compute_merkle_root_exam H bc1 = Inr (r, bc1\<lparr>merkle_root := r\<rparr>)"
    using compute_merkle_root_exam_value by blast
  then show ?thesis
    using bc bc1 by (simp add: build_node_def)
qed

lemma build_node_no_error: "build_node H clock d \<noteq> Some (Inl e)"
proof (cases "Blockchain_exam H (clock 0) d")
  case None
  then show ?thesis by (simp add: build_node_def)
next
  case (Some bc)
  then have ne: "chain bc \<noteq> []"
    using Blockchain_exam_Some by fastforce
  show ?thesis
  proof (cases "add_blocks H clock bc [1 ..< 9]")
    case None
    then show ?thesis using Some by (simp add: build_node_def)
  next
    case res: (Some res)
    show ?thesis
    proof (cases res)
      case (Inl e')
      then show ?thesis
        using res add_blocks_no_error [OF ne] by blast
    next
      case (Inr bc1)
      obtain r where "compute_merkle_root_exam H bc1 = Inr (r, bc1\<lparr>merkle_root := r\<rparr>)"
        using compute_merkle_root_exam_value by blast
      then show ?thesis
        using Some res Inr by (simp add: build_node_def)
    qed
  qed
qed

lemma build_nodes_returns:
  "minable H d \<Longrightarrow>
   \<exists>built1. build_nodes H clock d built is = Some (Inr built1) \<and>
            length built1 = length built + length is"
proof (induction "is" arbitrary: built)
  case Nil
  show ?case by simp
next
  case (Cons i "is")
  obtain bc where "build_node H (clock i) d = Some (Inr bc)"
    using build_node_returns [OF Cons.prems] by blast
  moreover obtain built1 where "build_nodes H clock d (built @ [bc]) is = Some (Inr built1)"
    "length built1 = length (built @ [bc]) + length is"
    using Cons.IH [OF Cons.prems] by blast
  ultimately show ?case
    by simp
qed

lemma build_nodes_no_error: "build_nodes H clock d built is \<noteq> Some (Inl e)"
proof (induction "is" arbitrary: built)
  case Nil
  show ?case by simp
next
  case (Cons i "is")
  show ?case
  proof (cases "build_node H (clock i) d")
    case None
    then show ?thesis by simp
  next
    case (Some res)
    then show ?thesis
      using build_node_no_error [of H "clock i" d] Cons.IH
      by (cases res) auto
  qed
qed

text \<open>
  C9. With an even \<open>node_count\<close> the constructor raises \<^verbatim>\<open>AssertionError\<close> whatever the digest
  function and the clock are, so before any replica is built or mined, and no network
  results. With an odd \<open>node_count\<close> it never raises; it returns a network of \<open>node_count\<close>
  replicas (none when \<open>node_count\<close> is negative) provided mining returns, which is the one way
  it can fail to.
\<close>

theorem network_construction:
  "(node_count mod 2 = 0 \<longrightarrow> Network H clock node_count d = Some (Inl AssertionError)) \<and>
   (node_count mod 2 = 1 \<longrightarrow> Network H clock node_count d \<noteq> Some (Inl e)) \<and>
   (node_count mod 2 = 1 \<and> minable H d \<longrightarrow>
      (\<exists>net. Network H clock node_count d = Some (Inr net) \<and>
             length (nodes net) = nat node_count \<and> net_difficulty net = d))"
proof (intro conjI impI)
  assume "node_count mod 2 = 0"
  then show "Network H clock node_count d = Some (Inl AssertionError)"
    by (simp add: Network_def)
next
  assume odd: "node_count mod 2 = 1"
  show "Network H clock node_count d \<noteq> Some (Inl e)"
  proof (cases "build_nodes H clock d [] [0 ..< nat node_count]")
    case None
    then show ?thesis using odd by (simp add: Network_def)
  next
    case (Some res)
    then show ?thesis
      using odd build_nodes_no_error [of H clock d "[]" "[0 ..< nat node_count]"]
      by (cases res) (auto simp: Network_def)
  qed
next
  assume a: "node_count mod 2 = 1 \<and> minable H d"
  then obtain built where "build_nodes H clock d [] [0 ..< nat node_count] = Some (Inr built)"
    "length built = length ([] :: exam_block blockchain list) + length [0 ..< nat node_count]"
    using build_nodes_returns by blast
  then show "\<exists>net. Network H clock node_count d = Some (Inr net) \<and>
             length (nodes net) = nat node_count \<and> net_difficulty net = d"
    using a by (simp add: Network_def)
qed

lemma minable_difficulty_0: "minable H 0"
  by (simp add: minable_def accepts_def startswith_def zeros_def)

theorem network_construction_witness:
  "Network toy_hasher (\<lambda>i j. ''17.5'') 2 3 = Some (Inl AssertionError) \<and>
   (3::int) mod 2 = 1 \<and> minable toy_hasher 0 \<and>
   (\<exists>net. Network toy_hasher (\<lambda>i j. ''17.5'') 3 0 = Some (Inr net) \<and>
          length (nodes net) = 3 \<and> net_difficulty net = 0)"
proof -
  have "Network toy_hasher (\<lambda>i j. ''17.5'') 2 3 = Some (Inl AssertionError)"
    using network_construction [of 2 toy_hasher "\<lambda>i j. ''17.5''" 3] by simp
  moreover have "\<exists>net. Network toy_hasher (\<lambda>i j. ''17.5'') 3 0 = Some (Inr net) \<and>
          length (nodes net) = 3 \<and> net_difficulty net = 0"
    using network_construction [of 3 toy_hasher "\<lambda>i j. ''17.5''" 0] minable_difficulty_0
    by simp
  ultimately show ?thesis
    using minable_difficulty_0 by simp
qed

section \<open>Runs on the sample network\<close>

lemma sample_chain_built:
  "Blockchain_exam toy_hasher ''17.5'' 3 =
     Some (sample_chain\<lparr>chain := take 1 (chain sample_chain), merkle_root := None\<rparr>) \<and>
   add_block_exam toy_hasher ''18.5'' ''x''
       (sample_chain\<lparr>chain := take 1 (chain sample_chain), merkle_root := None\<rparr>) =
     Some (Inr (sample_chain\<lparr>chain := take 2 (chain sample_chain), merkle_root := None\<rparr>)) \<and>
   add_block_exam toy_hasher ''19.5'' ''y''
       (sample_chain\<lparr>chain := take 2 (chain sample_chain), merkle_root := None\<rparr>) =
     Some (Inr (sample_chain\<lparr>merkle_root := None\<rparr>)) \<and>
   compute_merkle_root_exam toy_hasher (sample_chain\<lparr>merkle_root := None\<rparr>) =
     Inr (Some ''f573'', sample_chain)"
  by code_simp

lemma sample_corrupt_0:
  "corrupt_nodes toy_hasher sample_network [0] [1, 7] =
     (Inr (), \<lparr>nodes = [corrupted_sample, sample_chain, sample_chain], net_difficulty = 3\<rparr>)"
  by code_simp

lemma sample_corrupt_01:
  "corrupt_nodes toy_hasher sample_network [0, 1] [1, 7] =
     (Inr (), \<lparr>nodes = [corrupted_sample, corrupted_sample, sample_chain], net_difficulty = 3\<rparr>)"
  by code_simp

lemma sample_verdicts:
  "is_chain_valid_exam toy_hasher sample_chain = Inr True"
  "is_chain_valid_exam toy_hasher corrupted_sample = Inr False"
  by code_simp+

lemma sample_chain_m9_built:
  "Blockchain_m9 toy_hasher ''17.5'' 3 = Some fresh_chain_m9 \<and>
   add_block_m9 toy_hasher ''18.5'' ''x'' fresh_chain_m9 =
     Some (Inr (sample_chain_m9\<lparr>chain := take 2 (chain sample_chain_m9), merkle_root := None\<rparr>)) \<and>
   add_block_m9 toy_hasher ''19.5'' ''y''
       (sample_chain_m9\<lparr>chain := take 2 (chain sample_chain_m9), merkle_root := None\<rparr>) =
     Some (Inr (sample_chain_m9\<lparr>merkle_root := None\<rparr>)) \<and>
   compute_merkle_root_m9 toy_hasher (sample_chain_m9\<lparr>merkle_root := None\<rparr>) =
     Inr (Some ''f573'', sample_chain_m9)"
  by code_simp




theorem majority_vote_odd_witness:
  "odd (length (nodes \<lparr>nodes = [corrupted_sample, corrupted_sample, sample_chain], net_difficulty = 3\<rparr>)) \<and>
   valid_replicas toy_hasher
     \<lparr>nodes = [corrupted_sample, corrupted_sample, sample_chain], net_difficulty = 3\<rparr> = 1 \<and>
   majority_vote toy_hasher
     \<lparr>nodes = [corrupted_sample, corrupted_sample, sample_chain], net_difficulty = 3\<rparr> = Inr False \<and>
   valid_replicas toy_hasher
     \<lparr>nodes = [corrupted_sample, sample_chain, sample_chain], net_difficulty = 3\<rparr> = 2 \<and>
   majority_vote toy_hasher
     \<lparr>nodes = [corrupted_sample, sample_chain, sample_chain], net_difficulty = 3\<rparr> = Inr True"
proof -
  let ?two = "\<lparr>nodes = [corrupted_sample, corrupted_sample, sample_chain], net_difficulty = 3\<rparr>"
  let ?one = "\<lparr>nodes = [corrupted_sample, sample_chain, sample_chain], net_difficulty = 3\<rparr>"
  have odd2: "odd (length (nodes ?two))" and odd1: "odd (length (nodes ?one))"
    by simp_all
  have v2: "valid_replicas toy_hasher ?two = 1" and v1: "valid_replicas toy_hasher ?one = 2"
    by (simp_all add: valid_replicas_def sample_verdicts)
  show ?thesis
    using majority_vote_odd [OF odd2, of toy_hasher] majority_vote_odd [OF odd1, of toy_hasher]
      odd2 v1 v2
    by simp
qed

theorem corrupt_nodes_replica_out_of_range_witness:
  "corrupt_nodes toy_hasher sample_network [0] [1, 7] =
     (Inr (), \<lparr>nodes = [corrupted_sample, sample_chain, sample_chain], net_difficulty = 3\<rparr>) \<and>
   int (length (nodes sample_network)) \<le> 3 \<and>
   corrupt_nodes toy_hasher sample_network [0, 3, 1] [1, 7] =
     (Inl IndexError, \<lparr>nodes = [corrupted_sample, sample_chain, sample_chain], net_difficulty = 3\<rparr>) \<and>
   corrupt_blocks toy_hasher (chain sample_chain) [7, - 1, 3] = chain sample_chain"
proof -
  let ?N = "\<lparr>nodes = [corrupted_sample, sample_chain, sample_chain], net_difficulty = 3\<rparr>"
  have run: "corrupt_nodes toy_hasher sample_network [0] [1, 7] = (Inr (), ?N)"
    by (rule sample_corrupt_0)
  have bad: "int (length (nodes sample_network)) \<le> 3"
    by (simp add: sample_network_def)
  have skipped: "\<forall>bidx \<in> set [7, - 1, 3]. bidx < 0 \<or> int (length (chain sample_chain)) \<le> bidx"
    by (simp add: sample_chain_def)
  have "corrupt_nodes toy_hasher sample_network ([0] @ 3 # [1]) [1, 7] = (Inl IndexError, ?N)"
    using corrupt_nodes_replica_out_of_range
      [of toy_hasher sample_network "[0]" "[1, 7]" ?N 3 "[1]"] run bad
    by blast
  moreover have "corrupt_blocks toy_hasher (chain sample_chain) [7, - 1, 3] = chain sample_chain"
    using corrupt_nodes_replica_out_of_range
      [of toy_hasher sample_network "[]" "[7, - 1, 3]" sample_network 3 "[]" "chain sample_chain"]
      skipped
    by blast
  ultimately show ?thesis
    using run bad by simp
qed

end
